theory Spec2Isabelle
  imports Main "HOL-Library.AList"
begin

section \<open>Wire values and the Python primitives the listeners use\<close>

text \<open>
  The program is run by Python 3 (its console loop compares what \<^verbatim>\<open>input\<close> returns with
  strings). Both listeners decode an envelope with \<^verbatim>\<open>json.loads\<close> and then work on the
  decoded value. The decoder is a library function: a received payload is modelled by what
  decoding it gives, the value, or \<open>NotJson\<close> when \<^verbatim>\<open>json.loads\<close> raises \<^verbatim>\<open>ValueError\<close>, or
  \<open>TooDeep\<close> when it raises \<^verbatim>\<open>RecursionError\<close>, as it does on text nested deeper than the
  interpreter allows.

  A \<^verbatim>\<open>str\<close> is the list of the bytes of its UTF-8 encoding (a lone surrogate as its three
  bytes), so that every \<^verbatim>\<open>str\<close> has one value and a literal of the source is itself. An
  \<^verbatim>\<open>int\<close> is an \<open>int\<close>. A finite \<^verbatim>\<open>float\<close> is \<open>JFloat m e\<close>, the number \<open>m * 2 ^ e\<close>;
  \<open>JInfinity\<close> (with its sign, \<open>True\<close> for the positive one) and \<open>JNaN\<close> are what
  \<^verbatim>\<open>json.loads\<close> reads from \<^verbatim>\<open>Infinity\<close>, \<^verbatim>\<open>-Infinity\<close> and \<^verbatim>\<open>NaN\<close>. A \<^verbatim>\<open>dict\<close> is an
  association list in insertion order, read with \<open>map_of\<close>; \<^verbatim>\<open>None\<close> is \<open>JNull\<close>.
\<close>

datatype json =
    JNull
  | JBool bool
  | JInt int
  | JFloat int int
  | JInfinity bool
  | JNaN
  | JStr string
  | JArr "json list"
  | JObj "(string \<times> json) list"

datatype wire = NotJson | TooDeep | Json json

datatype exn =
    KeyError
  | ValueError
  | TypeError
  | OverflowError
  | RecursionError
  | AttributeError
  | UnboundLocalError
  | RoomNotFound
  | RoomFull
  | NotInRoom
  | UnknownIdentity

type_synonym addr = "string \<times> int"

text \<open>\<^verbatim>\<open>data[k]\<close> with a string key: only a dict can be subscripted by a string.\<close>

fun subscript :: "json \<Rightarrow> string \<Rightarrow> exn + json" where
  "subscript (JObj kvs) k = (case map_of kvs k of None \<Rightarrow> Inl KeyError | Some v \<Rightarrow> Inr v)"
| "subscript _ k = Inl TypeError"

text \<open>
  \<^verbatim>\<open>try: x = data[k]\<close> \<^verbatim>\<open>except KeyError: x = None\<close>: a missing key reads as \<^verbatim>\<open>None\<close>,
  any other exception goes on.
\<close>

definition opt_field :: "json \<Rightarrow> string \<Rightarrow> exn + json" where
  "opt_field data k =
     (case subscript data k of
        Inl e \<Rightarrow> if e = KeyError then Inr JNull else Inl e
      | Inr v \<Rightarrow> Inr v)"

text \<open>
  \<^verbatim>\<open>x in d.keys()\<close> for a dict with string keys: a list or a dict cannot be hashed
  (\<^verbatim>\<open>TypeError\<close>), a string is looked up, any other value is no key.
  The result is the key when it is one.
\<close>

definition dict_key :: "(string \<times> 'a) list \<Rightarrow> json \<Rightarrow> exn + string option" where
  "dict_key d j =
     (case j of
        JStr s \<Rightarrow> Inr (if map_of d s = None then None else Some s)
      | JArr xs \<Rightarrow> Inl TypeError
      | JObj kvs \<Rightarrow> Inl TypeError
      | _ \<Rightarrow> Inr None)"

text \<open>
  \<^verbatim>\<open>int(x)\<close> of Python 3.11. On a \<^verbatim>\<open>str\<close> it works on the code points: it skips the
  white space of Unicode at both ends, reads an optional sign, then decimal digits of any
  script with single underscores allowed between digits, and raises \<^verbatim>\<open>ValueError\<close> on
  anything else, and on more than 4300 digits (the limit the interpreter sets on this
  conversion). The tables are those of Unicode 14.0, the version of that interpreter: its
  decimal digits come in runs of ten, \<open>digit_zeros\<close> lists the zero of each run.
  \<open>utf8_decode\<close> reads the code points back from the bytes of a \<^verbatim>\<open>str\<close>.
\<close>

definition continuation :: "nat \<Rightarrow> bool" where
  "continuation b = (128 \<le> b \<and> b < 192)"

fun utf8_decode :: "nat list \<Rightarrow> nat list option" where
  "utf8_decode [] = Some []"
| "utf8_decode (b # bs) =
     (if b < 128 then map_option ((#) b) (utf8_decode bs)
      else if 194 \<le> b \<and> b < 224 then
        (case bs of
           c # r \<Rightarrow>
             if continuation c
             then map_option ((#) ((b - 192) * 64 + (c - 128))) (utf8_decode r)
             else None
         | _ \<Rightarrow> None)
      else if 224 \<le> b \<and> b < 240 then
        (case bs of
           c # d # r \<Rightarrow>
             if continuation c \<and> continuation d \<and> (if b = 224 then 160 \<le> c else True)
             then map_option ((#) ((b - 224) * 4096 + (c - 128) * 64 + (d - 128)))
                    (utf8_decode r)
             else None
         | _ \<Rightarrow> None)
      else if 240 \<le> b \<and> b < 245 then
        (case bs of
           c # d # e # r \<Rightarrow>
             if continuation c \<and> continuation d \<and> continuation e \<and>
                (if b = 240 then 144 \<le> c else if b = 244 then c < 144 else True)
             then map_option
                    ((#) ((b - 240) * 262144 + (c - 128) * 4096 + (d - 128) * 64 + (e - 128)))
                    (utf8_decode r)
             else None
         | _ \<Rightarrow> None)
      else None)"

definition code_points :: "string \<Rightarrow> nat list option" where
  "code_points s = utf8_decode (map of_char s)"

definition is_space :: "nat \<Rightarrow> bool" where
  "is_space cp =
     ((9 \<le> cp \<and> cp \<le> 13) \<or> cp = 32 \<or> cp = 133 \<or> cp = 160 \<or> cp = 5760 \<or>
      (8192 \<le> cp \<and> cp \<le> 8202) \<or> cp = 8232 \<or> cp = 8233 \<or> cp = 8239 \<or>
      cp = 8287 \<or> cp = 12288)"

definition digit_zeros :: "nat list" where
  "digit_zeros =
     [48, 1632, 1776, 1984, 2406, 2534, 2662, 2790, 2918, 3046, 3174, 3302, 3430, 3558,
      3664, 3792, 3872, 4160, 4240, 6112, 6160, 6470, 6608, 6784, 6800, 6992, 7088, 7232,
      7248, 42528, 43216, 43264, 43472, 43504, 43600, 44016, 65296, 66720, 68912, 69734,
      69872, 69942, 70096, 70384, 70736, 70864, 71248, 71360, 71472, 71904, 72016, 72784,
      73040, 73120, 92768, 92864, 93008, 120782, 120792, 120802, 120812, 120822, 123200,
      123632, 125264, 130032]"

definition digit_of :: "nat \<Rightarrow> nat option" where
  "digit_of cp =
     map_option (\<lambda>z. cp - z) (find (\<lambda>z. z \<le> cp \<and> cp \<le> z + 9) digit_zeros)"

fun digits_acc :: "nat list \<Rightarrow> nat \<Rightarrow> nat option" where
  "digits_acc [] acc = Some acc"
| "digits_acc (c # cs) acc =
     (case digit_of c of
        Some v \<Rightarrow> digits_acc cs (10 * acc + v)
      | None \<Rightarrow>
          if c = 95 then
            (case cs of
               [] \<Rightarrow> None
             | d # ds \<Rightarrow>
                 (case digit_of d of
                    Some v \<Rightarrow> digits_acc ds (10 * acc + v)
                  | None \<Rightarrow> None))
          else None)"

definition digits_nat :: "nat list \<Rightarrow> nat option" where
  "digits_nat cps =
     (if 4300 < length (filter (\<lambda>c. c \<noteq> 95) cps) then None
      else
        (case cps of
           [] \<Rightarrow> None
         | c # cs \<Rightarrow> (case digit_of c of Some v \<Rightarrow> digits_acc cs v | None \<Rightarrow> None)))"

definition strip :: "nat list \<Rightarrow> nat list" where
  "strip cps = rev (dropWhile is_space (rev (dropWhile is_space cps)))"

definition int_of_code_points :: "nat list \<Rightarrow> int option" where
  "int_of_code_points cps =
     (case strip cps of
        [] \<Rightarrow> None
      | c # cs \<Rightarrow>
          if c = 45 then map_option (\<lambda>n. - int n) (digits_nat cs)
          else if c = 43 then map_option int (digits_nat cs)
          else map_option int (digits_nat (c # cs)))"

definition int_of_string :: "string \<Rightarrow> int option" where
  "int_of_string s =
     (case code_points s of None \<Rightarrow> None | Some cps \<Rightarrow> int_of_code_points cps)"

text \<open>\<^verbatim>\<open>int(x)\<close> of a finite \<^verbatim>\<open>float\<close> drops the fraction, towards zero.\<close>

definition int_of_float :: "int \<Rightarrow> int \<Rightarrow> int" where
  "int_of_float m e =
     (if 0 \<le> e then m * 2 ^ nat e
      else if 0 \<le> m then m div 2 ^ nat (- e)
      else - ((- m) div 2 ^ nat (- e)))"

fun py_int :: "json \<Rightarrow> exn + int" where
  "py_int JNull = Inl TypeError"
| "py_int (JBool b) = Inr (if b then 1 else 0)"
| "py_int (JInt i) = Inr i"
| "py_int (JFloat m e) = Inr (int_of_float m e)"
| "py_int (JInfinity b) = Inl OverflowError"
| "py_int JNaN = Inl ValueError"
| "py_int (JStr s) = (case int_of_string s of None \<Rightarrow> Inl ValueError | Some i \<Rightarrow> Inr i)"
| "py_int (JArr xs) = Inl TypeError"
| "py_int (JObj kvs) = Inl TypeError"

section \<open>The Store (class Rooms)\<close>

text \<open>
  \<^verbatim>\<open>server.py\<close> imports \<^verbatim>\<open>Rooms\<close>, \<^verbatim>\<open>RoomNotFound\<close>, \<^verbatim>\<open>NotInRoom\<close> and
  \<^verbatim>\<open>RoomFull\<close> from a module \<^verbatim>\<open>rooms\<close> whose file is not among the sources: the
  Store of this section is written from its description, not from its code.
\<close>

text \<open>Modelled from the spec: the records of the absent module \<^verbatim>\<open>rooms\<close>. What
  \<^verbatim>\<open>server.py\<close> reads of them is kept under its names: \<^verbatim>\<open>rooms.rooms\<close> and
  \<^verbatim>\<open>rooms.players\<close> are dicts, a room has \<^verbatim>\<open>identifier\<close>, \<^verbatim>\<open>name\<close>,
  \<^verbatim>\<open>players\<close> and \<^verbatim>\<open>capacity\<close>, a player has \<^verbatim>\<open>identifier\<close> and \<^verbatim>\<open>udp_addr\<close>;
  a client refers to at most one room, and the members of a room are client identifiers.
  The capacity is the Python integer \<^verbatim>\<open>int(args.room_capacity)\<close>, any integer.\<close>

record client =
  c_identifier :: string
  c_udp_addr :: addr
  c_room :: "string option"

record room =
  r_identifier :: string
  r_name :: json
  r_capacity :: int
  r_players :: "string list"

record store =
  rooms :: "(string \<times> room) list"
  players :: "(string \<times> client) list"
  room_capacity :: int
  next_client :: nat
  next_room :: nat

text \<open>Modelled from the spec: the identifiers allocated by the absent \<^verbatim>\<open>register\<close> and
  \<^verbatim>\<open>create\<close>, opaque and fresh; here the decimal numerals of a counter.\<close>

fun ident_of_nat :: "nat \<Rightarrow> string" where
  "ident_of_nat n =
     (if n < 10 then [char_of (48 + n)]
      else ident_of_nat (n div 10) @ [char_of (48 + n mod 10)])"

declare ident_of_nat.simps [simp del]

definition digit_val :: "char \<Rightarrow> nat" where
  "digit_val c = of_char c - 48"

definition nat_of_ident :: "string \<Rightarrow> nat" where
  "nat_of_ident s = foldl (\<lambda>a c. 10 * a + digit_val c) 0 s"

text \<open>Modelled from the spec: the constructor of the Store, \<^verbatim>\<open>Rooms(capacity)\<close>, with no
  client and no room.\<close>

definition Rooms :: "int \<Rightarrow> store" where
  "Rooms capacity =
     \<lparr>rooms = [], players = [], room_capacity = capacity, next_client = 0, next_room = 0\<rparr>"

text \<open>Modelled from the spec: \<^verbatim>\<open>Rooms.register\<close>, which allocates a fresh session
  identifier, stores the caller's address, returns the new client and never fails.\<close>

definition register :: "store \<Rightarrow> addr \<Rightarrow> int \<Rightarrow> client \<times> store" where
  "register st address hint =
     (let c = \<lparr>c_identifier = ident_of_nat (next_client st), c_udp_addr = address,
                c_room = None\<rparr>
      in (c, st\<lparr>players := AList.update (c_identifier c) c (players st),
                 next_client := Suc (next_client st)\<rparr>))"

text \<open>Modelled from the spec: \<^verbatim>\<open>Rooms.create\<close>, which allocates a fresh room identifier
  and inserts an empty room with the given name and the Store's capacity; never fails.\<close>

definition create :: "store \<Rightarrow> json \<Rightarrow> string \<times> store" where
  "create st nm =
     (let rid = ident_of_nat (next_room st);
          r = \<lparr>r_identifier = rid, r_name = nm, r_capacity = room_capacity st, r_players = []\<rparr>
      in (rid, st\<lparr>rooms := AList.update rid r (rooms st), next_room := Suc (next_room st)\<rparr>))"

text \<open>Modelled from the spec: the members of a room are a set, so that joining again
  changes nothing; the room reference of a client is set only for a client of the table.\<close>

definition add_member :: "string \<Rightarrow> string list \<Rightarrow> string list" where
  "add_member cid ps = (if cid \<in> set ps then ps else ps @ [cid])"

definition set_room :: "string \<Rightarrow> string option \<Rightarrow> (string \<times> client) list \<Rightarrow> (string \<times> client) list" where
  "set_room cid v ps =
     (case map_of ps cid of
        None \<Rightarrow> ps
      | Some c \<Rightarrow> AList.update cid (c\<lparr>c_room := v\<rparr>) ps)"

text \<open>Modelled from the spec: \<^verbatim>\<open>Rooms.join\<close> with a room identifier. It fails with
  \<open>RoomNotFound\<close> for an unknown room and with \<open>RoomFull\<close> when the number of members
  equals the capacity; otherwise it adds the client to the members and sets the client's
  room reference.\<close>

definition join :: "store \<Rightarrow> string \<Rightarrow> string \<Rightarrow> (exn + string) \<times> store" where
  "join st cid rid =
     (case map_of (rooms st) rid of
        None \<Rightarrow> (Inl RoomNotFound, st)
      | Some r \<Rightarrow>
          if int (length (r_players r)) = r_capacity r then (Inl RoomFull, st)
          else (Inr rid,
                st\<lparr>rooms := AList.update rid (r\<lparr>r_players := add_member cid (r_players r)\<rparr>) (rooms st),
                   players := set_room cid (Some rid) (players st)\<rparr>))"

text \<open>Modelled from the spec: a room has free capacity when it has fewer members than its
  capacity.\<close>

definition has_free :: "string \<times> room \<Rightarrow> bool" where
  "has_free kr = (int (length (r_players (snd kr))) < r_capacity (snd kr))"

text \<open>Modelled from the spec: \<^verbatim>\<open>Rooms.join\<close> with the room identifier omitted
  (auto-join). It fails for an unknown client; it joins the first room, in creation order,
  with free capacity; when there is none it creates a room first, then joins it.\<close>

definition join_auto :: "store \<Rightarrow> string \<Rightarrow> (exn + string) \<times> store" where
  "join_auto st cid =
     (case map_of (players st) cid of
        None \<Rightarrow> (Inl UnknownIdentity, st)
      | Some c \<Rightarrow>
          (case find has_free (rooms st) of
             Some kr \<Rightarrow> join st cid (fst kr)
           | None \<Rightarrow> (let (rid, st1) = create st JNull in join st1 cid rid)))"

text \<open>Modelled from the spec: \<^verbatim>\<open>Rooms.leave\<close>. It fails with \<open>RoomNotFound\<close> for an
  unknown room and with \<open>NotInRoom\<close> when the client is no member; otherwise it removes
  the membership and clears the client's room reference.\<close>

definition leave :: "store \<Rightarrow> string \<Rightarrow> string \<Rightarrow> (exn + unit) \<times> store" where
  "leave st cid rid =
     (case map_of (rooms st) rid of
        None \<Rightarrow> (Inl RoomNotFound, st)
      | Some r \<Rightarrow>
          if cid \<notin> set (r_players r) then (Inl NotInRoom, st)
          else (Inr (),
                st\<lparr>rooms := AList.update rid (r\<lparr>r_players := removeAll cid (r_players r)\<rparr>) (rooms st),
                   players := set_room cid None (players st)\<rparr>))"

text \<open>Modelled from the spec: \<^verbatim>\<open>Rooms.remove_empty\<close>, which deletes every room with no
  member.\<close>

definition remove_empty :: "store \<Rightarrow> store" where
  "remove_empty st = st\<lparr>rooms := filter (\<lambda>kr. r_players (snd kr) \<noteq> []) (rooms st)\<rparr>"

text \<open>Modelled from the spec: the deliveries of a relay of the absent \<^verbatim>\<open>send\<close> and
  \<^verbatim>\<open>sendto\<close>, one per listed member that is a registered client, to its stored address.
  A failed transmission is not modelled: the spec has it dropped without an exception.\<close>

definition deliveries :: "store \<Rightarrow> string list \<Rightarrow> json \<Rightarrow> (addr \<times> json) list" where
  "deliveries st ps message =
     concat (map (\<lambda>p. case map_of (players st) p of
                         None \<Rightarrow> []
                       | Some c \<Rightarrow> [(c_udp_addr c, message)]) ps)"

text \<open>Modelled from the spec: \<^verbatim>\<open>Rooms.send\<close>. The sender must be a registered client whose
  room is the given room; the message goes to every other member's stored address.
  The Store is not changed.\<close>

definition send :: "store \<Rightarrow> json \<Rightarrow> json \<Rightarrow> json \<Rightarrow> exn + (addr \<times> json) list" where
  "send st sender rid message =
     (case dict_key (players st) sender of
        Inl e \<Rightarrow> Inl e
      | Inr None \<Rightarrow> Inl UnknownIdentity
      | Inr (Some s) \<Rightarrow>
          (case dict_key (rooms st) rid of
             Inl e \<Rightarrow> Inl e
           | Inr None \<Rightarrow> Inl RoomNotFound
           | Inr (Some k) \<Rightarrow>
               (case (map_of (players st) s, map_of (rooms st) k) of
                  (Some c, Some r) \<Rightarrow>
                    if c_room c \<noteq> Some k then Inl NotInRoom
                    else Inr (deliveries st (filter (\<lambda>p. p \<noteq> s) (r_players r)) message)
                | _ \<Rightarrow> Inl KeyError)))"

text \<open>Modelled from the spec: \<^verbatim>\<open>Rooms.sendto\<close>, as \<open>send\<close> with the deliveries restricted
  to the listed recipients that are members; a recipient outside the room is ignored.\<close>

definition sendto :: "store \<Rightarrow> json \<Rightarrow> json \<Rightarrow> json \<Rightarrow> json \<Rightarrow> exn + (addr \<times> json) list" where
  "sendto st sender rid recipients message =
     (case recipients of
        JArr rs \<Rightarrow>
          (case dict_key (players st) sender of
             Inl e \<Rightarrow> Inl e
           | Inr None \<Rightarrow> Inl UnknownIdentity
           | Inr (Some s) \<Rightarrow>
               (case dict_key (rooms st) rid of
                  Inl e \<Rightarrow> Inl e
                | Inr None \<Rightarrow> Inl RoomNotFound
                | Inr (Some k) \<Rightarrow>
                    (case (map_of (players st) s, map_of (rooms st) k) of
                       (Some c, Some r) \<Rightarrow>
                         if c_room c \<noteq> Some k then Inl NotInRoom
                         else Inr (deliveries st
                                (filter (\<lambda>p. p \<noteq> s \<and> JStr p \<in> set rs) (r_players r)) message)
                     | _ \<Rightarrow> Inl KeyError)))
      | _ \<Rightarrow> Inl TypeError)"

section \<open>What a listener does, as a trace\<close>

text \<open>
  A listener's thread acts on the lock, the Store, its sockets and the console. Each
  function below returns how the code left (\<open>Inr ()\<close>, or \<open>Inl e\<close> for the exception \<open>e\<close>
  that leaves it), the Store afterwards, and the actions in the order the code performs
  them. Of the socket library: \<^verbatim>\<open>send\<close> takes bytes, and given a \<^verbatim>\<open>str\<close> it raises
  \<^verbatim>\<open>TypeError\<close> before anything is transmitted; \<^verbatim>\<open>close\<close> closes the connection.
\<close>

datatype store_call =
    CallRegister
  | CallCreate
  | CallJoin
  | CallAutojoin
  | CallLeave
  | CallSend
  | CallSendto
  | CallRemoveEmpty

datatype tcp_msg = Reply bool json

datatype log_line =
    UnknownIdentifierLine json addr
  | JsonNotValidLine addr
  | NotJsonLine addr
  | RoomNotFoundLine

datatype event =
    Acquire
  | Release
  | Call store_call
  | Sent tcp_msg
  | Delivered addr json
  | Printed log_line
  | Closed

type_synonym outcome = "(exn + unit) \<times> store \<times> event list"

text \<open>Modelled from the spec: \<^verbatim>\<open>client.send_tcp(success, data, sock)\<close> of the absent
  class of clients sends the reply envelope \<^verbatim>\<open>{"success": ..., "message": ...}\<close> on the
  connection.\<close>

definition send_tcp :: "bool \<Rightarrow> json \<Rightarrow> event list" where
  "send_tcp success data = [Sent (Reply success data)]"

section \<open>TcpServer.route\<close>

text \<open>The branch \<^verbatim>\<open>action == "join"\<close>. The room looked up and joined is \<^verbatim>\<open>payload\<close>;
  the failure replies carry \<^verbatim>\<open>room_id\<close>. An exception other than \<open>RoomNotFound\<close> and
  \<open>RoomFull\<close> is not caught here.\<close>

definition route_join :: "store \<Rightarrow> string \<Rightarrow> json \<Rightarrow> json \<Rightarrow> outcome" where
  "route_join st cid payload room_id =
     (case dict_key (rooms st) payload of
        Inl e \<Rightarrow> (Inl e, st, [])
      | Inr None \<Rightarrow> (Inr (), st, send_tcp False room_id)
      | Inr (Some rid) \<Rightarrow>
          (case join st cid rid of
             (Inr r, st') \<Rightarrow> (Inr (), st', Call CallJoin # send_tcp True payload)
           | (Inl e, st') \<Rightarrow>
               if e = RoomNotFound \<or> e = RoomFull
               then (Inr (), st', Call CallJoin # send_tcp False room_id)
               else (Inl e, st', [Call CallJoin])))"

text \<open>The branch \<^verbatim>\<open>action == "autojoin"\<close>: nothing is caught.\<close>

definition route_autojoin :: "store \<Rightarrow> string \<Rightarrow> outcome" where
  "route_autojoin st cid =
     (case join_auto st cid of
        (Inr rid, st') \<Rightarrow> (Inr (), st', Call CallAutojoin # send_tcp True (JStr rid))
      | (Inl e, st') \<Rightarrow> (Inl e, st', [Call CallAutojoin]))"

text \<open>The branch \<^verbatim>\<open>action == "get_rooms"\<close>: one dict per room, in the order of the
  dict of rooms.\<close>

definition room_info :: "string \<times> room \<Rightarrow> json" where
  "room_info kr =
     JObj [(''id'', JStr (fst kr)),
           (''name'', r_name (snd kr)),
           (''nb_players'', JInt (int (length (r_players (snd kr))))),
           (''capacity'', JInt (r_capacity (snd kr)))]"

definition route_get_rooms :: "store \<Rightarrow> outcome" where
  "route_get_rooms st = (Inr (), st, send_tcp True (JArr (map room_info (rooms st))))"

text \<open>The branch \<^verbatim>\<open>action == "create"\<close>: the room is created, then the client joins it;
  nothing is caught.\<close>

definition route_create :: "store \<Rightarrow> string \<Rightarrow> json \<Rightarrow> outcome" where
  "route_create st cid payload =
     (let (room_identifier, st1) = create st payload in
      case join st1 cid room_identifier of
        (Inr r, st2) \<Rightarrow>
          (Inr (), st2, [Call CallCreate, Call CallJoin] @ send_tcp True (JStr room_identifier))
      | (Inl e, st2) \<Rightarrow> (Inl e, st2, [Call CallCreate, Call CallJoin]))"

text \<open>
  The branch \<^verbatim>\<open>action == 'leave'\<close>. For a room that exists the code goes on to
  \<^verbatim>\<open>rooms.leave(identifier, room_id)\<close>. The name \<^verbatim>\<open>rooms\<close> is assigned in the
  \<^verbatim>\<open>get_rooms\<close> branch of \<^verbatim>\<open>route\<close> (\<^verbatim>\<open>rooms = []\<close>), which makes it a local variable of
  the whole function; in this branch it has no value, and reading it raises
  \<^verbatim>\<open>UnboundLocalError\<close> before any method is called. Neither handler of the
  \<^verbatim>\<open>try\<close> catches it.
\<close>

definition route_leave :: "store \<Rightarrow> string \<Rightarrow> json \<Rightarrow> outcome" where
  "route_leave st cid room_id =
     (case dict_key (rooms st) room_id of
        Inl e \<Rightarrow> (Inl e, st, [])
      | Inr None \<Rightarrow> (Inr (), st, send_tcp False room_id)
      | Inr (Some rid) \<Rightarrow> (Inl UnboundLocalError, st, []))"

text \<open>
  The last branch, \<^verbatim>\<open>sock.send_tcp(...)\<close>: \<^verbatim>\<open>sock\<close> is the connection returned by
  \<^verbatim>\<open>accept\<close>, a socket, which has no attribute \<^verbatim>\<open>send_tcp\<close>; reading the attribute
  raises \<^verbatim>\<open>AttributeError\<close>.
\<close>

definition route_else :: "store \<Rightarrow> outcome" where
  "route_else st = (Inl AttributeError, st, [])"

text \<open>The \<^verbatim>\<open>if\<close>/\<^verbatim>\<open>elif\<close> chain on the action, for a registered client.\<close>

definition route_client :: "store \<Rightarrow> string \<Rightarrow> json \<Rightarrow> json \<Rightarrow> json \<Rightarrow> outcome" where
  "route_client st cid action payload room_id =
     (if action = JStr ''join'' then route_join st cid payload room_id
      else if action = JStr ''autojoin'' then route_autojoin st cid
      else if action = JStr ''get_rooms'' then route_get_rooms st
      else if action = JStr ''create'' then route_create st cid payload
      else if action = JStr ''leave'' then route_leave st cid room_id
      else route_else st)"

text \<open>
  The branch \<^verbatim>\<open>action == "register"\<close>. \<^verbatim>\<open>Rooms.register\<close> is not among the sources: it
  is the parameter \<open>reg\<close>, which returns the client and the Store it leaves. The branch
  converts the payload with \<^verbatim>\<open>int(payload)\<close> first, calls
  \<^verbatim>\<open>self.rooms.register(addr, int(payload))\<close>, and replies with the identifier of the client
  returned.
\<close>

type_synonym registration = "store \<Rightarrow> addr \<Rightarrow> int \<Rightarrow> client \<times> store"

definition route_register :: "registration \<Rightarrow> store \<Rightarrow> addr \<Rightarrow> json \<Rightarrow> outcome" where
  "route_register reg st addr payload =
     (case py_int payload of
        Inl e \<Rightarrow> (Inl e, st, [])
      | Inr n \<Rightarrow>
          (case reg st addr n of
             (c, st') \<Rightarrow>
               (Inr (), st', Call CallRegister # send_tcp True (JStr (c_identifier c)))))"

text \<open>
  \<^verbatim>\<open>TcpServer.route\<close>. For an identifier that is no key of the players, the code prints
  a line and calls \<^verbatim>\<open>sock.send\<close> with a \<^verbatim>\<open>str\<close>, the formatted message: the call raises
  \<^verbatim>\<open>TypeError\<close> and nothing is sent. With \<^verbatim>\<open>identifier\<close> equal to \<^verbatim>\<open>None\<close> and an action
  other than \<^verbatim>\<open>"register"\<close> the function ends without doing anything. In \<open>route_by\<close>,
  \<open>tcp_request_by\<close> and \<open>tcp_connection_by\<close> the absent \<^verbatim>\<open>Rooms.register\<close> is the parameter
  \<open>reg\<close>; \<open>route\<close>, \<open>tcp_request\<close> and \<open>tcp_connection\<close> are the listener with the Store of
  the section above.
\<close>

definition route_by ::
    "registration \<Rightarrow> store \<Rightarrow> addr \<Rightarrow> json \<Rightarrow> json \<Rightarrow> json \<Rightarrow> json \<Rightarrow> outcome" where
  "route_by reg st addr action payload identifier room_id =
     (if action = JStr ''register'' then route_register reg st addr payload
      else if identifier \<noteq> JNull then
        (case dict_key (players st) identifier of
           Inl e \<Rightarrow> (Inl e, st, [])
         | Inr None \<Rightarrow> (Inl TypeError, st, [Printed (UnknownIdentifierLine identifier addr)])
         | Inr (Some cid) \<Rightarrow> route_client st cid action payload room_id)
      else (Inr (), st, []))"

definition route :: "store \<Rightarrow> addr \<Rightarrow> json \<Rightarrow> json \<Rightarrow> json \<Rightarrow> json \<Rightarrow> outcome" where
  "route = route_by register"

section \<open>TcpServer.run\<close>

text \<open>The body of the \<^verbatim>\<open>try\<close>: decoding, the fields, and \<^verbatim>\<open>route\<close> between the
  acquisition of the lock and its release in the \<^verbatim>\<open>finally\<close>.\<close>

definition tcp_request_by :: "registration \<Rightarrow> store \<Rightarrow> addr \<Rightarrow> wire \<Rightarrow> outcome" where
  "tcp_request_by reg st addr w =
     (case w of
        NotJson \<Rightarrow> (Inl ValueError, st, [])
      | TooDeep \<Rightarrow> (Inl RecursionError, st, [])
      | Json data \<Rightarrow>
          (case subscript data ''action'' of
             Inl e \<Rightarrow> (Inl e, st, [])
           | Inr action \<Rightarrow>
               (case opt_field data ''identifier'' of
                  Inl e \<Rightarrow> (Inl e, st, [])
                | Inr identifier \<Rightarrow>
                    (case opt_field data ''room_id'' of
                       Inl e \<Rightarrow> (Inl e, st, [])
                     | Inr room_id \<Rightarrow>
                         (case opt_field data ''payload'' of
                            Inl e \<Rightarrow> (Inl e, st, [])
                          | Inr payload \<Rightarrow>
                              (case route_by reg st addr action payload identifier room_id of
                                 (r, st', ev) \<Rightarrow> (r, st', Acquire # ev @ [Release])))))))"

definition tcp_request :: "store \<Rightarrow> addr \<Rightarrow> wire \<Rightarrow> outcome" where
  "tcp_request = tcp_request_by register"

text \<open>
  One accepted connection: the \<^verbatim>\<open>try\<close>, its two handlers, and \<^verbatim>\<open>conn.close()\<close> after
  them. Each handler prints a line and then calls \<^verbatim>\<open>conn.send\<close> with a \<^verbatim>\<open>str\<close>, which
  raises \<^verbatim>\<open>TypeError\<close>: raised in a handler, it is caught by no other one. So every
  exception of the \<^verbatim>\<open>try\<close> leaves the loop, as itself or as this \<^verbatim>\<open>TypeError\<close>, and
  \<^verbatim>\<open>conn.close()\<close> is reached only when the \<^verbatim>\<open>try\<close> ends without one.
\<close>

definition tcp_connection_by :: "registration \<Rightarrow> store \<Rightarrow> addr \<Rightarrow> wire \<Rightarrow> outcome" where
  "tcp_connection_by reg st addr w =
     (case tcp_request_by reg st addr w of
        (Inr u, st', ev) \<Rightarrow> (Inr (), st', ev @ [Closed])
      | (Inl e, st', ev) \<Rightarrow>
          if e = KeyError then (Inl TypeError, st', ev @ [Printed (JsonNotValidLine addr)])
          else if e = ValueError then (Inl TypeError, st', ev @ [Printed (NotJsonLine addr)])
          else (Inl e, st', ev))"

definition tcp_connection :: "store \<Rightarrow> addr \<Rightarrow> wire \<Rightarrow> outcome" where
  "tcp_connection = tcp_connection_by register"

text \<open>One turn of the loop. Its inputs are whether \<^verbatim>\<open>time_reference + 60 < time.time()\<close>
  holds, and what \<^verbatim>\<open>accept\<close> and \<^verbatim>\<open>recv\<close> give: a timeout (\<open>None\<close>) or a connection with its
  peer address and data.\<close>

definition tcp_iteration :: "store \<Rightarrow> bool \<times> (addr \<times> wire) option \<Rightarrow> outcome" where
  "tcp_iteration st i =
     (let st1 = (if fst i then remove_empty st else st);
          ev1 = (if fst i then [Call CallRemoveEmpty] else [])
      in case snd i of
           None \<Rightarrow> (Inr (), st1, ev1)
         | Some (addr, w) \<Rightarrow>
             (case tcp_connection st1 addr w of (r, st2, ev2) \<Rightarrow> (r, st2, ev1 @ ev2)))"

text \<open>The loop over the turns taken while \<^verbatim>\<open>is_listening\<close> holds; an exception ends it.\<close>

fun tcp_run :: "store \<Rightarrow> (bool \<times> (addr \<times> wire) option) list \<Rightarrow> outcome" where
  "tcp_run st [] = (Inr (), st, [])"
| "tcp_run st (i # is) =
     (case tcp_iteration st i of
        (Inl e, st', ev) \<Rightarrow> (Inl e, st', ev)
      | (Inr u, st', ev) \<Rightarrow> (case tcp_run st' is of (r, st'', ev') \<Rightarrow> (r, st'', ev @ ev')))"

section \<open>UdpServer.run\<close>

text \<open>
  \<^verbatim>\<open>Rooms.send\<close> and \<^verbatim>\<open>Rooms.sendto\<close> are not among the sources: in the functions
  \<open>udp_relay_by\<close>, \<open>udp_datagram_by\<close> and \<open>udp_run_by\<close> they are the parameters \<open>send_op\<close>
  and \<open>sendto_op\<close>, which either raise or return the deliveries they made; a relay reads
  the Store and does not change it. \<open>udp_relay\<close>, \<open>udp_datagram\<close> and \<open>udp_run\<close> are the
  listener with the Store of the section above.
\<close>

type_synonym relay = "store \<Rightarrow> json \<Rightarrow> json \<Rightarrow> json \<Rightarrow> exn + (addr \<times> json) list"

type_synonym relay_to =
  "store \<Rightarrow> json \<Rightarrow> json \<Rightarrow> json \<Rightarrow> json \<Rightarrow> exn + (addr \<times> json) list"

text \<open>The code between the acquisition and the release of the lock: each relay is in a
  \<^verbatim>\<open>try\<close> whose handler swallows every exception, those raised while the arguments are
  evaluated included.\<close>

definition udp_relay_by ::
    "relay \<Rightarrow> relay_to \<Rightarrow> store \<Rightarrow> json \<Rightarrow> json \<Rightarrow> json \<Rightarrow> json \<Rightarrow> event list" where
  "udp_relay_by send_op sendto_op st action identifier room_id payload =
     (if action = JStr ''send'' then
        (case subscript payload ''message'' of
           Inl e \<Rightarrow> []
         | Inr m \<Rightarrow>
             Call CallSend #
             (case send_op st identifier room_id m of
                Inl e \<Rightarrow> []
              | Inr ds \<Rightarrow> map (\<lambda>d. Delivered (fst d) (snd d)) ds))
      else if action = JStr ''sendto'' then
        (case subscript payload ''recipients'' of
           Inl e \<Rightarrow> []
         | Inr rs \<Rightarrow>
             (case subscript payload ''message'' of
                Inl e \<Rightarrow> []
              | Inr m \<Rightarrow>
                  Call CallSendto #
                  (case sendto_op st identifier room_id rs m of
                     Inl e \<Rightarrow> []
                   | Inr ds \<Rightarrow> map (\<lambda>d. Delivered (fst d) (snd d)) ds)))
      else [])"

definition udp_relay :: "store \<Rightarrow> json \<Rightarrow> json \<Rightarrow> json \<Rightarrow> json \<Rightarrow> event list" where
  "udp_relay = udp_relay_by send sendto"

text \<open>The handlers of the outer \<^verbatim>\<open>try\<close>: \<^verbatim>\<open>KeyError\<close> and \<^verbatim>\<open>ValueError\<close> are printed,
  anything else leaves the loop.\<close>

definition udp_handlers :: "store \<Rightarrow> addr \<Rightarrow> exn \<Rightarrow> outcome" where
  "udp_handlers st address e =
     (if e = KeyError then (Inr (), st, [Printed (JsonNotValidLine address)])
      else if e = ValueError then (Inr (), st, [Printed (NotJsonLine address)])
      else (Inl e, st, []))"

text \<open>One received datagram, from \<^verbatim>\<open>json.loads\<close> to the end of the outer \<^verbatim>\<open>try\<close>.\<close>

definition udp_datagram_by :: "relay \<Rightarrow> relay_to \<Rightarrow> store \<Rightarrow> addr \<times> wire \<Rightarrow> outcome" where
  "udp_datagram_by send_op sendto_op st d =
     (case snd d of
        NotJson \<Rightarrow> udp_handlers st (fst d) ValueError
      | TooDeep \<Rightarrow> udp_handlers st (fst d) RecursionError
      | Json data \<Rightarrow>
          (case opt_field data ''identifier'' of
             Inl e \<Rightarrow> udp_handlers st (fst d) e
           | Inr identifier \<Rightarrow>
               (case opt_field data ''room_id'' of
                  Inl e \<Rightarrow> udp_handlers st (fst d) e
                | Inr room_id \<Rightarrow>
                    (case opt_field data ''payload'' of
                       Inl e \<Rightarrow> udp_handlers st (fst d) e
                     | Inr payload \<Rightarrow>
                         (case opt_field data ''action'' of
                            Inl e \<Rightarrow> udp_handlers st (fst d) e
                          | Inr action \<Rightarrow>
                              (case dict_key (rooms st) room_id of
                                 Inl e \<Rightarrow> udp_handlers st (fst d) e
                               | Inr None \<Rightarrow> (Inr (), st, [Printed RoomNotFoundLine])
                               | Inr (Some rid) \<Rightarrow>
                                   (Inr (), st,
                                    Acquire #
                                    udp_relay_by send_op sendto_op st action identifier
                                      room_id payload
                                      @ [Release])))))))"

definition udp_datagram :: "store \<Rightarrow> addr \<times> wire \<Rightarrow> outcome" where
  "udp_datagram = udp_datagram_by send sendto"

text \<open>The loop over the datagrams received while \<^verbatim>\<open>is_listening\<close> holds; a timeout of
  \<^verbatim>\<open>recvfrom\<close> is \<open>None\<close>.\<close>

fun udp_run_by :: "relay \<Rightarrow> relay_to \<Rightarrow> store \<Rightarrow> (addr \<times> wire) option list \<Rightarrow> outcome" where
  "udp_run_by send_op sendto_op st [] = (Inr (), st, [])"
| "udp_run_by send_op sendto_op st (None # ds) = udp_run_by send_op sendto_op st ds"
| "udp_run_by send_op sendto_op st (Some d # ds) =
     (case udp_datagram_by send_op sendto_op st d of
        (Inl e, st', ev) \<Rightarrow> (Inl e, st', ev)
      | (Inr u, st', ev) \<Rightarrow>
          (case udp_run_by send_op sendto_op st' ds of
             (r, st'', ev') \<Rightarrow> (r, st'', ev @ ev')))"

definition udp_run :: "store \<Rightarrow> (addr \<times> wire) option list \<Rightarrow> outcome" where
  "udp_run = udp_run_by send sendto"

section \<open>Reading a trace\<close>

text \<open>The lock along a trace, from whether the thread holds it: acquiring a lock the
  thread holds would block for ever and releasing one it does not hold raises, so both
  give \<open>None\<close>.\<close>

fun lock_after :: "bool \<Rightarrow> event list \<Rightarrow> bool option" where
  "lock_after held [] = Some held"
| "lock_after held (Acquire # es) = (if held then None else lock_after True es)"
| "lock_after held (Release # es) = (if held then lock_after False es else None)"
| "lock_after held (e # es) = lock_after held es"

text \<open>The calls of Store operations made while the thread does not hold the lock.\<close>

fun unlocked_calls :: "bool \<Rightarrow> event list \<Rightarrow> store_call list" where
  "unlocked_calls held [] = []"
| "unlocked_calls held (Acquire # es) = unlocked_calls True es"
| "unlocked_calls held (Release # es) = unlocked_calls False es"
| "unlocked_calls held (Call c # es) =
     (if held then unlocked_calls held es else c # unlocked_calls held es)"
| "unlocked_calls held (e # es) = unlocked_calls held es"

definition trace :: "outcome \<Rightarrow> event list" where
  "trace out = snd (snd out)"

definition result :: "outcome \<Rightarrow> exn + unit" where
  "result out = fst out"

definition store_of :: "outcome \<Rightarrow> store" where
  "store_of out = fst (snd out)"

text \<open>A trace in which the lock is neither acquired nor released.\<close>

definition plain :: "event list \<Rightarrow> bool" where
  "plain ev = (Acquire \<notin> set ev \<and> Release \<notin> set ev)"

text \<open>A trace that transmits nothing on the data plane and prints nothing.\<close>

fun silent_event :: "event \<Rightarrow> bool" where
  "silent_event (Delivered a m) = False"
| "silent_event (Printed l) = False"
| "silent_event e = True"

definition silent :: "event list \<Rightarrow> bool" where
  "silent ev = list_all silent_event ev"

text \<open>A trace with no delivery and no call of a Store operation.\<close>

fun idle_event :: "event \<Rightarrow> bool" where
  "idle_event (Delivered a m) = False"
| "idle_event (Call c) = False"
| "idle_event e = True"

text \<open>What \<^verbatim>\<open>route\<close> can do: call the Store, send on the connection, print.\<close>

fun dispatch_event :: "event \<Rightarrow> bool" where
  "dispatch_event (Call c) = True"
| "dispatch_event (Sent m) = True"
| "dispatch_event (Printed l) = True"
| "dispatch_event e = False"

text \<open>The actions \<open>ev\<close>, then what \<open>out\<close> does.\<close>

definition prepend :: "event list \<Rightarrow> outcome \<Rightarrow> outcome" where
  "prepend ev out = (result out, store_of out, ev @ trace out)"

text \<open>The field \<^verbatim>\<open>identifier\<close> of a datagram, \<^verbatim>\<open>None\<close> when there is none to read.\<close>

definition claimed_sender :: "wire \<Rightarrow> json" where
  "claimed_sender w =
     (case w of
        NotJson \<Rightarrow> JNull
      | TooDeep \<Rightarrow> JNull
      | Json data \<Rightarrow> (case opt_field data ''identifier'' of Inl e \<Rightarrow> JNull | Inr i \<Rightarrow> i))"

text \<open>The field \<^verbatim>\<open>room_id\<close> of a datagram, likewise.\<close>

definition claimed_room :: "wire \<Rightarrow> json" where
  "claimed_room w =
     (case w of
        NotJson \<Rightarrow> JNull
      | TooDeep \<Rightarrow> JNull
      | Json data \<Rightarrow> (case opt_field data ''room_id'' of Inl e \<Rightarrow> JNull | Inr i \<Rightarrow> i))"

text \<open>No registered client other than \<open>sender\<close> has \<open>src\<close> as its stored address.\<close>

definition only_sender_at :: "store \<Rightarrow> addr \<Rightarrow> json \<Rightarrow> bool" where
  "only_sender_at st src sender =
     list_all (\<lambda>kc. c_udp_addr (snd kc) \<noteq> src \<or> JStr (fst kc) = sender) (players st)"

text \<open>The Store refuses to relay for a sender in a room: \<^verbatim>\<open>send\<close> and \<^verbatim>\<open>sendto\<close> raise
  for them, whatever the message and the recipients, having delivered nothing.\<close>

definition refuses :: "relay \<Rightarrow> relay_to \<Rightarrow> store \<Rightarrow> json \<Rightarrow> json \<Rightarrow> bool" where
  "refuses send_op sendto_op st sender rid =
     ((\<forall>m. \<exists>e. send_op st sender rid m = Inl e) \<and>
      (\<forall>rs m. \<exists>e. sendto_op st sender rid rs m = Inl e))"

text \<open>The contract of \<^verbatim>\<open>Rooms.register\<close>, for one call: the client it returns has an
  identifier that was no key of the players, and is afterwards the client under that key,
  with the address given as its data-plane address.\<close>

definition register_contract :: "registration \<Rightarrow> store \<Rightarrow> addr \<Rightarrow> int \<Rightarrow> bool" where
  "register_contract reg st addr n =
     (case reg st addr n of
        (c, st') \<Rightarrow>
          map_of (players st) (c_identifier c) = None \<and>
          map_of (players st') (c_identifier c) = Some c \<and> c_udp_addr c = addr)"

section \<open>Invariants of the Store\<close>

text \<open>No room has more members than its capacity.\<close>

definition within_capacity :: "store \<Rightarrow> bool" where
  "within_capacity st =
     list_all (\<lambda>kr. int (length (r_players (snd kr))) \<le> r_capacity (snd kr)) (rooms st)"

text \<open>The states of a Store constructed with capacity \<open>c\<close>, under any sequence of its
  operations, whether they succeed or fail.\<close>

inductive reachable :: "int \<Rightarrow> store \<Rightarrow> bool" for c :: int where
  constructed: "reachable c (Rooms c)"
| registered: "reachable c st \<Longrightarrow> reachable c (snd (register st address hint))"
| created: "reachable c st \<Longrightarrow> reachable c (snd (create st nm))"
| joined: "reachable c st \<Longrightarrow> reachable c (snd (join st cid rid))"
| auto_joined: "reachable c st \<Longrightarrow> reachable c (snd (join_auto st cid))"
| left: "reachable c st \<Longrightarrow> reachable c (snd (leave st cid rid))"
| swept: "reachable c st \<Longrightarrow> reachable c (remove_empty st)"

text \<open>The Store and every room have the capacity \<open>c\<close>.\<close>

definition uniform :: "int \<Rightarrow> store \<Rightarrow> bool" where
  "uniform c st = (room_capacity st = c \<and> list_all (\<lambda>kr. r_capacity (snd kr) = c) (rooms st))"

text \<open>Every key of a table is the numeral of a number below the counter.\<close>

definition keys_below :: "nat \<Rightarrow> (string \<times> 'a) list \<Rightarrow> bool" where
  "keys_below m kvs = (\<forall>k \<in> fst ` set kvs. \<exists>n<m. k = ident_of_nat n)"

section \<open>Sample requests\<close>

definition addr_a :: addr where
  "addr_a = (''10.0.0.1'', 5000)"

definition addr_b :: addr where
  "addr_b = (''10.0.0.2'', 6000)"

definition request :: "(string \<times> json) list \<Rightarrow> wire" where
  "request kvs = Json (JObj kvs)"

definition register_request :: wire where
  "register_request = request [(''action'', JStr ''register''), (''payload'', JInt 7000)]"

definition create_request :: wire where
  "create_request =
     request [(''action'', JStr ''create''), (''identifier'', JStr ''0''),
              (''payload'', JStr ''lobby'')]"

definition join_request :: wire where
  "join_request =
     request [(''action'', JStr ''join''), (''identifier'', JStr ''1''),
              (''payload'', JStr ''0'')]"

definition leave_request :: wire where
  "leave_request =
     request [(''action'', JStr ''leave''), (''identifier'', JStr ''1''),
              (''room_id'', JStr ''0'')]"

definition dance_request :: wire where
  "dance_request = request [(''action'', JStr ''dance''), (''identifier'', JStr ''1'')]"

definition anonymous_request :: wire where
  "anonymous_request = request [(''action'', JStr ''join''), (''payload'', JStr ''0'')]"

definition send_datagram :: "string \<Rightarrow> string \<Rightarrow> wire" where
  "send_datagram sender rid =
     request [(''action'', JStr ''send''), (''identifier'', JStr sender),
              (''room_id'', JStr rid), (''payload'', JObj [(''message'', JStr ''hi'')])]"

text \<open>The Store after four requests on the control plane: a client registers from
  \<open>addr_a\<close>, a second one from \<open>addr_b\<close>, the first creates a room, the second joins it.\<close>

definition duo_store :: store where
  "duo_store =
     store_of (tcp_connection
       (store_of (tcp_connection
         (store_of (tcp_connection
           (store_of (tcp_connection (Rooms 4) addr_a register_request))
           addr_b register_request))
         addr_a create_request))
       addr_b join_request)"


definition listed_register_request :: wire where
  "listed_register_request =
     request [(''action'', JStr ''register''), (''payload'', JArr [JInt 7000])]"

definition actionless_request :: wire where
  "actionless_request = request [(''identifier'', JStr ''1'')]"

text \<open>The same four requests, all from \<open>addr_a\<close>.\<close>

definition shared_store :: store where
  "shared_store =
     store_of (tcp_connection
       (store_of (tcp_connection
         (store_of (tcp_connection
           (store_of (tcp_connection (Rooms 4) addr_a register_request))
           addr_a register_request))
         addr_a create_request))
       addr_a join_request)"

text \<open>A Store of capacity 1 whose one room is full.\<close>

definition full_store :: store where
  "full_store = snd (join (snd (create (Rooms 1) JNull)) ''7'' ''0'')"

section \<open>The listener with the Store of the description\<close>

lemma route_unfold:
  "route st addr action payload idf room_id =
     (if action = JStr ''register'' then route_register register st addr payload
      else if idf \<noteq> JNull then
        (case dict_key (players st) idf of
           Inl e \<Rightarrow> (Inl e, st, [])
         | Inr None \<Rightarrow> (Inl TypeError, st, [Printed (UnknownIdentifierLine idf addr)])
         | Inr (Some cid) \<Rightarrow> route_client st cid action payload room_id)
      else (Inr (), st, []))"
  unfolding route_def route_by_def by (rule refl)

lemma tcp_request_unfold:
  "tcp_request st addr w =
     (case w of
        NotJson \<Rightarrow> (Inl ValueError, st, [])
      | TooDeep \<Rightarrow> (Inl RecursionError, st, [])
      | Json data \<Rightarrow>
          (case subscript data ''action'' of
             Inl e \<Rightarrow> (Inl e, st, [])
           | Inr action \<Rightarrow>
               (case opt_field data ''identifier'' of
                  Inl e \<Rightarrow> (Inl e, st, [])
                | Inr idf \<Rightarrow>
                    (case opt_field data ''room_id'' of
                       Inl e \<Rightarrow> (Inl e, st, [])
                     | Inr room_id \<Rightarrow>
                         (case opt_field data ''payload'' of
                            Inl e \<Rightarrow> (Inl e, st, [])
                          | Inr payload \<Rightarrow>
                              (case route st addr action payload idf room_id of
                                 (r, st', ev) \<Rightarrow> (r, st', Acquire # ev @ [Release])))))))"
  unfolding tcp_request_def tcp_request_by_def route_def by (rule refl)

lemma tcp_connection_unfold:
  "tcp_connection st addr w =
     (case tcp_request st addr w of
        (Inr u, st', ev) \<Rightarrow> (Inr (), st', ev @ [Closed])
      | (Inl e, st', ev) \<Rightarrow>
          if e = KeyError then (Inl TypeError, st', ev @ [Printed (JsonNotValidLine addr)])
          else if e = ValueError then (Inl TypeError, st', ev @ [Printed (NotJsonLine addr)])
          else (Inl e, st', ev))"
  unfolding tcp_connection_def tcp_connection_by_def tcp_request_def by (rule refl)

section \<open>The lock\<close>

lemma plain_simps [simp]:
  "plain []"
  "plain (e # ev) = (e \<noteq> Acquire \<and> e \<noteq> Release \<and> plain ev)"
  "plain (ev @ ev') = (plain ev \<and> plain ev')"
  by (auto simp: plain_def)

lemma lock_after_plain: "plain ev \<Longrightarrow> lock_after held ev = Some held"
  by (induction held ev rule: lock_after.induct) simp_all

lemma lock_after_append:
  "lock_after held (ev @ ev') =
     (case lock_after held ev of None \<Rightarrow> None | Some h \<Rightarrow> lock_after h ev')"
  by (induction held ev rule: lock_after.induct) simp_all

lemma unlocked_calls_held: "plain ev \<Longrightarrow> unlocked_calls True ev = []"
  by (induction "True" ev rule: unlocked_calls.induct) simp_all

lemma unlocked_calls_plain_append:
  "plain ev \<Longrightarrow> unlocked_calls held (ev @ ev') = unlocked_calls held ev @ unlocked_calls held ev'"
  by (induction held ev rule: unlocked_calls.induct) simp_all

lemma plain_send_tcp [simp]: "plain (send_tcp b j)"
  by (simp add: send_tcp_def)

lemma plain_route_join: "plain (trace (route_join st cid payload room_id))"
  by (simp add: route_join_def trace_def split: sum.splits option.splits prod.splits)

lemma plain_route_autojoin: "plain (trace (route_autojoin st cid))"
  by (simp add: route_autojoin_def trace_def split: sum.splits prod.splits)

lemma plain_route_create: "plain (trace (route_create st cid payload))"
  by (simp add: route_create_def trace_def split: sum.splits prod.splits)

lemma plain_route_leave: "plain (trace (route_leave st cid room_id))"
  by (simp add: route_leave_def trace_def split: sum.splits option.splits)

lemma plain_route_register: "plain (trace (route_register reg st addr payload))"
  by (simp add: route_register_def trace_def split: sum.splits prod.splits)

lemma plain_route_client: "plain (trace (route_client st cid action payload room_id))"
  using plain_route_join plain_route_autojoin plain_route_create plain_route_leave
  by (simp add: route_client_def route_get_rooms_def route_else_def trace_def)

lemma plain_route: "plain (trace (route st addr action payload idf room_id))"
  using plain_route_client [of st _ action payload room_id]
    plain_route_register [of register st addr payload]
  by (simp add: route_unfold trace_def split: sum.splits option.splits)

lemma plain_routeD:
  "route st addr action payload idf room_id = (r, st', ev) \<Longrightarrow> plain ev"
  using plain_route [of st addr action payload idf room_id] by (simp add: trace_def)

lemma trace_tcp_request:
  "trace (tcp_request st addr w) = [] \<or>
   (\<exists>ev. plain ev \<and> trace (tcp_request st addr w) = Acquire # ev @ [Release])"
  by (auto simp: tcp_request_unfold trace_def dest: plain_routeD
      split: wire.splits sum.splits prod.splits)

lemma lock_tcp_request: "lock_after False (trace (tcp_request st addr w)) = Some False"
  using trace_tcp_request [of st addr w]
  by (auto simp: lock_after_append lock_after_plain)

lemma trace_tcp_connection:
  "\<exists>ev. plain ev \<and> trace (tcp_connection st addr w) = trace (tcp_request st addr w) @ ev"
  by (auto simp: tcp_connection_unfold trace_def split: sum.splits prod.splits)

lemma lock_tcp_connection: "lock_after False (trace (tcp_connection st addr w)) = Some False"
proof -
  obtain ev where "plain ev"
    and "trace (tcp_connection st addr w) = trace (tcp_request st addr w) @ ev"
    using trace_tcp_connection by blast
  then show ?thesis
    by (simp add: lock_after_append lock_tcp_request lock_after_plain)
qed

lemma lock_tcp_connectionD:
  "tcp_connection st addr w = (r, st', ev) \<Longrightarrow> lock_after False ev = Some False"
  using lock_tcp_connection [of st addr w] by (simp add: trace_def)

lemma lock_tcp_iteration: "lock_after False (trace (tcp_iteration st i)) = Some False"
proof (cases "snd i")
  case None
  then show ?thesis by (simp add: tcp_iteration_def trace_def)
next
  case (Some c)
  obtain addr w where c: "c = (addr, w)" by (cases c) auto
  obtain r st' ev where conn:
    "tcp_connection (if fst i then remove_empty st else st) addr w = (r, st', ev)"
    by (cases "tcp_connection (if fst i then remove_empty st else st) addr w") auto
  from conn have "lock_after False ev = Some False" by (rule lock_tcp_connectionD)
  with Some c conn show ?thesis
    by (simp add: tcp_iteration_def trace_def lock_after_append)
qed

lemma lock_tcp_run: "lock_after False (trace (tcp_run st is)) = Some False"
proof (induction "is" arbitrary: st)
  case Nil
  show ?case by (simp add: trace_def)
next
  case (Cons i "is")
  obtain r st' ev where it: "tcp_iteration st i = (r, st', ev)"
    by (cases "tcp_iteration st i") auto
  have ev: "lock_after False ev = Some False"
    using lock_tcp_iteration [of st i] it by (simp add: trace_def)
  show ?case
  proof (cases r)
    case (Inl e)
    with it ev show ?thesis by (simp add: trace_def)
  next
    case (Inr u)
    obtain r' st'' ev' where run: "tcp_run st' is = (r', st'', ev')"
      by (cases "tcp_run st' is") auto
    have "lock_after False ev' = Some False"
      using Cons.IH [of st'] run by (simp add: trace_def)
    with it ev Inr run show ?thesis
      by (simp add: trace_def lock_after_append)
  qed
qed


lemma plain_delivered: "plain (map (\<lambda>d. Delivered (fst d) (snd d)) ds)"
  by (induction ds) simp_all

lemma plain_udp_relay_by:
  "plain (udp_relay_by send_op sendto_op st action idf room_id payload)"
  by (simp add: udp_relay_by_def plain_delivered split: sum.splits)

lemma plain_udp_relay: "plain (udp_relay st action idf room_id payload)"
  by (simp add: udp_relay_def plain_udp_relay_by)

lemma trace_udp_datagram_by:
  "plain (trace (udp_datagram_by send_op sendto_op st d)) \<and>
   list_all idle_event (trace (udp_datagram_by send_op sendto_op st d)) \<or>
   (\<exists>action payload. trace (udp_datagram_by send_op sendto_op st d) =
      Acquire #
      udp_relay_by send_op sendto_op st action (claimed_sender (snd d)) (claimed_room (snd d))
        payload
        @ [Release])"
proof (cases "snd d")
  case NotJson
  then show ?thesis by (simp add: udp_datagram_by_def udp_handlers_def trace_def)
next
  case TooDeep
  then show ?thesis by (simp add: udp_datagram_by_def udp_handlers_def trace_def)
next
  case (Json data)
  then show ?thesis
    by (auto simp: udp_datagram_by_def udp_handlers_def trace_def claimed_sender_def
        claimed_room_def split: sum.splits option.splits)
qed

lemma trace_udp_datagram:
  "plain (trace (udp_datagram st d)) \<and> list_all idle_event (trace (udp_datagram st d)) \<or>
   (\<exists>action payload. trace (udp_datagram st d) =
      Acquire # udp_relay st action (claimed_sender (snd d)) (claimed_room (snd d)) payload
        @ [Release])"
  using trace_udp_datagram_by [of send sendto st d]
  by (simp add: udp_datagram_def udp_relay_def)

lemma lock_udp_datagram_by:
  "lock_after False (trace (udp_datagram_by send_op sendto_op st d)) = Some False"
  using trace_udp_datagram_by [of send_op sendto_op st d] plain_udp_relay_by
  by (auto simp: lock_after_plain lock_after_append)

lemma lock_udp_datagram: "lock_after False (trace (udp_datagram st d)) = Some False"
  by (simp add: udp_datagram_def lock_udp_datagram_by)

lemma store_udp_datagram_by: "store_of (udp_datagram_by send_op sendto_op st d) = st"
  by (auto simp: udp_datagram_by_def udp_handlers_def store_of_def
      split: wire.splits sum.splits option.splits)

lemma store_udp_datagram: "store_of (udp_datagram st d) = st"
  by (simp add: udp_datagram_def store_udp_datagram_by)

lemma lock_udp_run_by:
  "lock_after False (trace (udp_run_by send_op sendto_op st ds)) = Some False"
proof (induction ds arbitrary: st)
  case Nil
  show ?case by (simp add: trace_def)
next
  case (Cons x ds)
  show ?case
  proof (cases x)
    case None
    with Cons.IH [of st] show ?thesis by simp
  next
    case (Some d)
    obtain r st' ev where dg: "udp_datagram_by send_op sendto_op st d = (r, st', ev)"
      by (cases "udp_datagram_by send_op sendto_op st d") auto
    have ev: "lock_after False ev = Some False"
      using lock_udp_datagram_by [of send_op sendto_op st d] dg by (simp add: trace_def)
    show ?thesis
    proof (cases r)
      case (Inl e)
      with Some dg ev show ?thesis by (simp add: trace_def)
    next
      case (Inr u)
      obtain r' st'' ev' where run: "udp_run_by send_op sendto_op st' ds = (r', st'', ev')"
        by (cases "udp_run_by send_op sendto_op st' ds") auto
      have "lock_after False ev' = Some False"
        using Cons.IH [of st'] run by (simp add: trace_def)
      with Some dg ev Inr run show ?thesis
        by (simp add: trace_def lock_after_append)
    qed
  qed
qed

lemma lock_udp_run: "lock_after False (trace (udp_run st ds)) = Some False"
  by (simp add: udp_run_def lock_udp_run_by)

text \<open>
  Claim C10. Every acquisition of the lock by either listener is followed by its release
  before the next request or datagram is processed, whatever the request does: along the
  trace of one connection, of one datagram, and of a whole run of either loop, started
  with the lock free, the lock is never acquired while held nor released while free, and
  it is free at the end. This holds for every Store and every input, so also when the
  dispatched operation raises and the exception leaves the loop.
\<close>

theorem lock_always_released:
  "lock_after False (trace (tcp_connection st addr w)) = Some False \<and>
   lock_after False (trace (udp_datagram st d)) = Some False \<and>
   lock_after False (trace (tcp_run st is)) = Some False \<and>
   lock_after False (trace (udp_run st ds)) = Some False"
  by (simp add: lock_tcp_connection lock_udp_datagram lock_tcp_run lock_udp_run)

section \<open>The sample Store\<close>

lemmas listener_defs =
  tcp_connection_unfold tcp_request_unfold opt_field_def route_unfold route_register_def
  route_client_def route_join_def
  route_autojoin_def route_create_def route_leave_def route_else_def route_get_rooms_def
  send_tcp_def dict_key_def request_def

lemma ident_of_nat_small:
  "ident_of_nat 0 = ''0''"
  "ident_of_nat (Suc 0) = ''1''"
  "ident_of_nat (Suc (Suc 0)) = ''2''"
  by code_simp+

lemmas store_defs =
  Rooms_def register_def create_def join_def join_auto_def leave_def remove_empty_def
  add_member_def set_room_def ident_of_nat_small Let_def

lemma first_registered:
  "store_of (tcp_connection (Rooms 4) x register_request) =
     \<lparr>rooms = [],
      players = [(''0'', \<lparr>c_identifier = ''0'', c_udp_addr = x, c_room = None\<rparr>)],
      room_capacity = 4, next_client = 1, next_room = 0\<rparr>"
  by (simp add: store_of_def listener_defs store_defs register_request_def)

lemma second_registered:
  "store_of (tcp_connection
     \<lparr>rooms = [],
      players = [(''0'', \<lparr>c_identifier = ''0'', c_udp_addr = x, c_room = None\<rparr>)],
      room_capacity = 4, next_client = 1, next_room = 0\<rparr> y register_request) =
     \<lparr>rooms = [],
      players = [(''0'', \<lparr>c_identifier = ''0'', c_udp_addr = x, c_room = None\<rparr>),
                 (''1'', \<lparr>c_identifier = ''1'', c_udp_addr = y, c_room = None\<rparr>)],
      room_capacity = 4, next_client = 2, next_room = 0\<rparr>"
  by (simp add: store_of_def listener_defs store_defs register_request_def)

lemma room_created:
  "store_of (tcp_connection
     \<lparr>rooms = [],
      players = [(''0'', \<lparr>c_identifier = ''0'', c_udp_addr = x, c_room = None\<rparr>),
                 (''1'', \<lparr>c_identifier = ''1'', c_udp_addr = y, c_room = None\<rparr>)],
      room_capacity = 4, next_client = 2, next_room = 0\<rparr> z create_request) =
     \<lparr>rooms = [(''0'', \<lparr>r_identifier = ''0'', r_name = JStr ''lobby'', r_capacity = 4,
                         r_players = [''0'']\<rparr>)],
      players = [(''0'', \<lparr>c_identifier = ''0'', c_udp_addr = x, c_room = Some ''0''\<rparr>),
                 (''1'', \<lparr>c_identifier = ''1'', c_udp_addr = y, c_room = None\<rparr>)],
      room_capacity = 4, next_client = 2, next_room = 1\<rparr>"
  by (simp add: store_of_def listener_defs store_defs create_request_def)

lemma room_joined:
  "store_of (tcp_connection
     \<lparr>rooms = [(''0'', \<lparr>r_identifier = ''0'', r_name = JStr ''lobby'', r_capacity = 4,
                         r_players = [''0'']\<rparr>)],
      players = [(''0'', \<lparr>c_identifier = ''0'', c_udp_addr = x, c_room = Some ''0''\<rparr>),
                 (''1'', \<lparr>c_identifier = ''1'', c_udp_addr = y, c_room = None\<rparr>)],
      room_capacity = 4, next_client = 2, next_room = 1\<rparr> z join_request) =
     \<lparr>rooms = [(''0'', \<lparr>r_identifier = ''0'', r_name = JStr ''lobby'', r_capacity = 4,
                         r_players = [''0'', ''1'']\<rparr>)],
      players = [(''0'', \<lparr>c_identifier = ''0'', c_udp_addr = x, c_room = Some ''0''\<rparr>),
                 (''1'', \<lparr>c_identifier = ''1'', c_udp_addr = y, c_room = Some ''0''\<rparr>)],
      room_capacity = 4, next_client = 2, next_room = 1\<rparr>"
  by (simp add: store_of_def listener_defs store_defs join_request_def)

lemma duo_store_eq:
  "duo_store =
     \<lparr>rooms = [(''0'', \<lparr>r_identifier = ''0'', r_name = JStr ''lobby'', r_capacity = 4,
                         r_players = [''0'', ''1'']\<rparr>)],
      players = [(''0'', \<lparr>c_identifier = ''0'', c_udp_addr = addr_a, c_room = Some ''0''\<rparr>),
                 (''1'', \<lparr>c_identifier = ''1'', c_udp_addr = addr_b, c_room = Some ''0''\<rparr>)],
      room_capacity = 4, next_client = 2, next_room = 1\<rparr>"
  unfolding duo_store_def first_registered second_registered room_created room_joined ..

lemma shared_store_eq:
  "shared_store =
     \<lparr>rooms = [(''0'', \<lparr>r_identifier = ''0'', r_name = JStr ''lobby'', r_capacity = 4,
                         r_players = [''0'', ''1'']\<rparr>)],
      players = [(''0'', \<lparr>c_identifier = ''0'', c_udp_addr = addr_a, c_room = Some ''0''\<rparr>),
                 (''1'', \<lparr>c_identifier = ''1'', c_udp_addr = addr_a, c_room = Some ''0''\<rparr>)],
      room_capacity = 4, next_client = 2, next_room = 1\<rparr>"
  unfolding shared_store_def first_registered second_registered room_created room_joined ..

section \<open>The sweep and the lock\<close>

lemma unlocked_calls_locked_append:
  "plain ev \<Longrightarrow> unlocked_calls True (ev @ ev') = unlocked_calls True ev'"
  by (induction "True" ev rule: unlocked_calls.induct) simp_all

lemma unlocked_tcp_connection: "unlocked_calls False (trace (tcp_connection st addr w)) = []"
proof -
  have "trace (tcp_request st addr w) = [] \<or>
    (\<exists>ev. plain ev \<and> trace (tcp_request st addr w) = Acquire # ev @ [Release])"
    by (rule trace_tcp_request)
  then show ?thesis
    by (auto simp: tcp_connection_unfold trace_def unlocked_calls_locked_append
        split: sum.splits prod.splits)
qed

lemma unlocked_calls_idle: "list_all idle_event ev \<Longrightarrow> plain ev \<Longrightarrow> unlocked_calls held ev = []"
  by (induction held ev rule: unlocked_calls.induct) simp_all

lemma unlocked_udp_datagram: "unlocked_calls False (trace (udp_datagram st d)) = []"
proof -
  consider "plain (trace (udp_datagram st d))" "list_all idle_event (trace (udp_datagram st d))"
    | action payload where "trace (udp_datagram st d) =
        Acquire # udp_relay st action (claimed_sender (snd d)) (claimed_room (snd d)) payload
          @ [Release]"
    using trace_udp_datagram [of st d] by blast
  then show ?thesis
  proof cases
    case 1
    then show ?thesis by (simp add: unlocked_calls_idle)
  next
    case 2
    then show ?thesis
      by (simp add: unlocked_calls_locked_append plain_udp_relay)
  qed
qed

text \<open>
  Claim C2, which the code does not meet. Every call of a Store operation that
  \<^verbatim>\<open>route\<close> or the data-plane listener makes is between the acquisition and the release
  of the lock (\<open>unlocked_tcp_connection\<close>, \<open>unlocked_udp_datagram\<close>), but the sweep is
  not: in a turn of the loop of \<^verbatim>\<open>TcpServer.run\<close> in which the sweep is due,
  \<^verbatim>\<open>remove_empty\<close> is the one Store operation called while the thread does not hold the
  lock.
\<close>

theorem sweep_outside_lock:
  "unlocked_calls False (trace (tcp_iteration st (True, acc))) = [CallRemoveEmpty]"
proof (cases acc)
  case None
  then show ?thesis by (simp add: tcp_iteration_def trace_def)
next
  case (Some c)
  obtain addr w where c: "c = (addr, w)" by (cases c) auto
  obtain r st' ev where conn: "tcp_connection (remove_empty st) addr w = (r, st', ev)"
    by (cases "tcp_connection (remove_empty st) addr w") auto
  have "unlocked_calls False ev = []"
    using unlocked_tcp_connection [of "remove_empty st" addr w] conn by (simp add: trace_def)
  with Some c conn show ?thesis
    by (simp add: tcp_iteration_def trace_def)
qed

section \<open>The dispatch\<close>

lemma dict_key_Some: "dict_key d j = Inr (Some s) \<Longrightarrow> j = JStr s"
  by (cases j) (auto simp: dict_key_def split: if_splits)

text \<open>What \<^verbatim>\<open>route\<close> does with a leave request, with a request that names no client or
  an unknown one, and with an action it does not know, on any Store.\<close>

lemma leave_of_existing_room:
  assumes "dict_key (players st) idf = Inr (Some cid)"
    and "dict_key (rooms st) room_id = Inr (Some rid)"
  shows "route st addr (JStr ''leave'') payload idf room_id = (Inl UnboundLocalError, st, [])"
proof -
  from assms(1) have "idf = JStr cid" by (rule dict_key_Some)
  with assms show ?thesis
    by (simp add: route_unfold route_client_def route_leave_def)
qed

lemma leave_of_unknown_room:
  assumes "dict_key (players st) idf = Inr (Some cid)"
    and "dict_key (rooms st) room_id = Inr None"
  shows "route st addr (JStr ''leave'') payload idf room_id =
           (Inr (), st, [Sent (Reply False room_id)])"
proof -
  from assms(1) have "idf = JStr cid" by (rule dict_key_Some)
  with assms show ?thesis
    by (simp add: route_unfold route_client_def route_leave_def send_tcp_def)
qed

lemma absent_identifier_unanswered:
  "action \<noteq> JStr ''register'' \<Longrightarrow> route st addr action payload JNull room_id = (Inr (), st, [])"
  by (simp add: route_unfold)

lemma unknown_identifier_raises:
  assumes "action \<noteq> JStr ''register''" and "idf \<noteq> JNull"
    and "dict_key (players st) idf = Inr None"
  shows "route st addr action payload idf room_id =
           (Inl TypeError, st, [Printed (UnknownIdentifierLine idf addr)])"
  using assms by (simp add: route_unfold)

lemma unknown_action_of_client:
  assumes "dict_key (players st) idf = Inr (Some cid)"
    and "action \<noteq> JStr ''register''" and "action \<noteq> JStr ''join''"
    and "action \<noteq> JStr ''autojoin''" and "action \<noteq> JStr ''get_rooms''"
    and "action \<noteq> JStr ''create''" and "action \<noteq> JStr ''leave''"
  shows "route st addr action payload idf room_id = (Inl AttributeError, st, [])"
proof -
  from assms(1) have "idf = JStr cid" by (rule dict_key_Some)
  with assms show ?thesis
    by (simp add: route_unfold route_client_def route_else_def)
qed

text \<open>
  Claim C3, which the code does not meet. A registered client, member of an existing
  room, asks to leave it: \<^verbatim>\<open>route\<close> raises \<^verbatim>\<open>UnboundLocalError\<close> at
  \<^verbatim>\<open>rooms.leave\<close>; no Store operation is called, the Store is unchanged, nothing is sent,
  and the exception leaves \<^verbatim>\<open>run\<close> after the release of the lock, before the connection
  is closed.
\<close>

theorem leave_existing_room_raises:
  "tcp_connection duo_store addr_b leave_request = (Inl UnboundLocalError, duo_store, [Acquire, Release])"
  by (simp add: duo_store_eq listener_defs leave_request_def)

text \<open>
  Claim C4, which the code does not meet for an absent identifier. A request to join
  with no \<^verbatim>\<open>identifier\<close> field: \<^verbatim>\<open>route\<close> returns without sending anything, and the
  connection is closed with no reply, whatever the Store.
\<close>

theorem anonymous_request_unanswered:
  "tcp_connection st addr anonymous_request = (Inr (), st, [Acquire, Release, Closed])"
  by (simp add: listener_defs anonymous_request_def)

text \<open>
  Claim C7, which the code does not meet. A registered client sends an action that is
  none of the known ones: \<^verbatim>\<open>route\<close> raises \<^verbatim>\<open>AttributeError\<close> at
  \<^verbatim>\<open>sock.send_tcp\<close>; nothing is sent, and the exception leaves \<^verbatim>\<open>run\<close>.
\<close>

theorem unknown_action_raises:
  "tcp_connection duo_store addr_b dance_request = (Inl AttributeError, duo_store, [Acquire, Release])"
  by (simp add: duo_store_eq listener_defs dance_request_def)

section \<open>Fresh identifiers\<close>

lemma of_char_digit: "n < 10 \<Longrightarrow> digit_val (char_of (48 + n)) = n"
  by (simp add: digit_val_def)

lemma nat_of_ident_of_nat: "nat_of_ident (ident_of_nat n) = n"
proof (induction n rule: ident_of_nat.induct)
  case (1 n)
  show ?case
  proof (cases "n < 10")
    case True
    then show ?thesis
      by (simp add: ident_of_nat.simps [of n] nat_of_ident_def of_char_digit)
  next
    case False
    then have "nat_of_ident (ident_of_nat (n div 10)) = n div 10"
      using "1.IH" by simp
    moreover have "digit_val (char_of (48 + n mod 10)) = n mod 10"
      by (rule of_char_digit) simp
    ultimately show ?thesis
      using False by (simp add: ident_of_nat.simps [of n] nat_of_ident_def)
  qed
qed

lemma ident_of_nat_inj: "ident_of_nat m = ident_of_nat n \<Longrightarrow> m = n"
  by (metis nat_of_ident_of_nat)

lemma keys_update: "fst ` set (AList.update k v kvs) = insert k (fst ` set kvs)"
  by (simp add: dom_update)

lemma map_of_Some_key: "map_of kvs k = Some v \<Longrightarrow> k \<in> fst ` set kvs"
  by (metis map_of_eq_None_iff option.distinct(1))

lemma keys_set_room: "fst ` set (set_room cid v ps) = fst ` set ps"
  by (auto simp: set_room_def keys_update split: option.splits dest: map_of_Some_key)

lemma players_create: "players (snd (create st nm)) = players st"
  by (simp add: create_def Let_def)

lemma next_client_create: "next_client (snd (create st nm)) = next_client st"
  by (simp add: create_def Let_def)

lemma keys_join: "fst ` set (players (snd (join st cid rid))) = fst ` set (players st)"
  by (simp add: join_def keys_set_room split: option.splits)

lemma next_client_join: "next_client (snd (join st cid rid)) = next_client st"
  by (simp add: join_def split: option.splits)

lemma join_auto_cases:
  "join_auto st cid = (Inl UnknownIdentity, st) \<or>
   (\<exists>rid. join_auto st cid = join st cid rid) \<or>
   (\<exists>rid. join_auto st cid = join (snd (create st JNull)) cid rid)"
  by (auto simp: join_auto_def split: option.splits prod.splits)

lemma keys_join_auto: "fst ` set (players (snd (join_auto st cid))) = fst ` set (players st)"
proof -
  consider "join_auto st cid = (Inl UnknownIdentity, st)"
    | rid where "join_auto st cid = join st cid rid"
    | rid where "join_auto st cid = join (snd (create st JNull)) cid rid"
    using join_auto_cases [of st cid] by blast
  then show ?thesis
  proof cases
    case 1
    then show ?thesis by simp
  next
    case 2
    then show ?thesis by (simp add: keys_join)
  next
    case 3
    then show ?thesis by (simp add: keys_join players_create)
  qed
qed

lemma next_client_join_auto: "next_client (snd (join_auto st cid)) = next_client st"
proof -
  consider "join_auto st cid = (Inl UnknownIdentity, st)"
    | rid where "join_auto st cid = join st cid rid"
    | rid where "join_auto st cid = join (snd (create st JNull)) cid rid"
    using join_auto_cases [of st cid] by blast
  then show ?thesis
  proof cases
    case 1
    then show ?thesis by simp
  next
    case 2
    then show ?thesis by (simp add: next_client_join)
  next
    case 3
    then show ?thesis by (simp add: next_client_join next_client_create)
  qed
qed

lemma keys_leave: "fst ` set (players (snd (leave st cid rid))) = fst ` set (players st)"
  by (simp add: leave_def keys_set_room split: option.splits)

lemma next_client_leave: "next_client (snd (leave st cid rid)) = next_client st"
  by (simp add: leave_def split: option.splits)

lemma reachable_client_keys: "reachable c st \<Longrightarrow> keys_below (next_client st) (players st)"
proof (induction rule: reachable.induct)
  case constructed
  show ?case by (simp add: keys_below_def Rooms_def)
next
  case (registered st address hint)
  then show ?case
    by (auto simp: keys_below_def register_def Let_def keys_update intro: less_SucI)
next
  case (created st nm)
  then show ?case by (simp add: keys_below_def players_create next_client_create)
next
  case (joined st cid rid)
  then show ?case by (simp add: keys_below_def keys_join next_client_join)
next
  case (auto_joined st cid)
  then show ?case by (simp add: keys_below_def keys_join_auto next_client_join_auto)
next
  case (left st cid rid)
  then show ?case by (simp add: keys_below_def keys_leave next_client_leave)
next
  case (swept st)
  then show ?case by (simp add: keys_below_def remove_empty_def)
qed

lemma fresh_client: 
  assumes "reachable c st"
  shows "map_of (players st) (ident_of_nat (next_client st)) = None"
proof (rule ccontr)
  assume "map_of (players st) (ident_of_nat (next_client st)) \<noteq> None"
  then have "ident_of_nat (next_client st) \<in> fst ` set (players st)"
    by (simp add: map_of_eq_None_iff)
  then obtain n where "n < next_client st" "ident_of_nat (next_client st) = ident_of_nat n"
    using reachable_client_keys [OF assms] by (auto simp: keys_below_def)
  then show False by (auto dest: ident_of_nat_inj)
qed

section \<open>Registration\<close>

text \<open>What \<^verbatim>\<open>int(payload)\<close> gives on some payloads: a no-break space before a digit is
  skipped, Arabic-Indic digits are read, a float is truncated towards zero, text that is no
  numeral is refused.\<close>

lemmas int_of_string_defs =
  int_of_string_def code_points_def continuation_def int_of_code_points_def strip_def
  is_space_def digits_nat_def digit_of_def digit_zeros_def

lemma int_of_padded_digit: "py_int (JStr [CHR 0xC2, CHR 0xA0, CHR ''7'']) = Inr 7"
  by (simp add: int_of_string_defs)

lemma int_of_arabic_digits: "py_int (JStr [CHR 0xD9, CHR 0xA3, CHR ''_'', CHR ''4'']) = Inr 34"
  by (simp add: int_of_string_defs)

lemma int_of_signed_digits: "py_int (JStr '' -007 '') = Inr (- 7)"
  by (simp add: int_of_string_defs)

lemma int_of_text: "py_int (JStr ''12a'') = Inl ValueError"
  by (simp add: int_of_string_defs)

lemma int_of_negative_float: "py_int (JFloat (- 79) (- 3)) = Inr (- 9)"
  by (simp add: int_of_float_def)

lemma int_of_long_string:
  "4300 < length (filter (\<lambda>c. c \<noteq> 95) cps) \<Longrightarrow> digits_nat cps = None"
  by (simp add: digits_nat_def)

text \<open>The Store written from the description keeps the contract of \<^verbatim>\<open>register\<close> in
  every reachable state.\<close>

lemma register_keeps_contract:
  assumes "reachable c st"
  shows "register_contract register st addr n"
  using fresh_client [OF assms]
  by (simp add: register_contract_def register_def Let_def update_conv')

text \<open>The register branch is the one \<^verbatim>\<open>route\<close> takes for the action \<^verbatim>\<open>"register"\<close>,
  whatever the other fields are.\<close>

lemma route_register_branch:
  "route st addr (JStr ''register'') payload idf room_id = route_register register st addr payload"
  by (simp add: route_unfold)





section \<open>Closing the connection\<close>

lemma dispatch_send_tcp [simp]: "list_all dispatch_event (send_tcp b j)"
  by (simp add: send_tcp_def)

lemma dispatch_route_join: "list_all dispatch_event (trace (route_join st cid payload room_id))"
  by (simp add: route_join_def trace_def split: sum.splits option.splits prod.splits)

lemma dispatch_route_autojoin: "list_all dispatch_event (trace (route_autojoin st cid))"
  by (simp add: route_autojoin_def trace_def split: sum.splits prod.splits)

lemma dispatch_route_create: "list_all dispatch_event (trace (route_create st cid payload))"
  by (simp add: route_create_def trace_def split: sum.splits prod.splits)

lemma dispatch_route_leave: "list_all dispatch_event (trace (route_leave st cid room_id))"
  by (simp add: route_leave_def trace_def split: sum.splits option.splits)

lemma dispatch_route_register:
  "list_all dispatch_event (trace (route_register reg st addr payload))"
  by (simp add: route_register_def trace_def split: sum.splits prod.splits)

lemma dispatch_route_client:
  "list_all dispatch_event (trace (route_client st cid action payload room_id))"
  using dispatch_route_join dispatch_route_autojoin dispatch_route_create dispatch_route_leave
  by (simp add: route_client_def route_get_rooms_def route_else_def trace_def)

lemma dispatch_route: "list_all dispatch_event (trace (route st addr action payload idf room_id))"
  using dispatch_route_client [of st _ action payload room_id]
    dispatch_route_register [of register st addr payload]
  by (simp add: route_unfold trace_def split: sum.splits option.splits)

lemma dispatch_not_closed: "list_all dispatch_event ev \<Longrightarrow> Closed \<notin> set ev"
  by (induction ev) auto

lemma route_not_closed:
  "route st addr action payload idf room_id = (r, st', ev) \<Longrightarrow> Closed \<notin> set ev"
  using dispatch_route [of st addr action payload idf room_id]
  by (simp add: trace_def dispatch_not_closed)

lemma request_not_closed: "Closed \<notin> set (trace (tcp_request st addr w))"
  by (auto simp: tcp_request_unfold trace_def dest: route_not_closed
      split: wire.splits sum.splits prod.splits)

text \<open>\<^verbatim>\<open>conn.close()\<close> is reached exactly when the \<^verbatim>\<open>try\<close> ends without an exception,
  and then it is the last action of the turn.\<close>

lemma closed_after_return:
  assumes "result (tcp_request st addr w) = Inr ()"
  shows "result (tcp_connection st addr w) = Inr () \<and>
         trace (tcp_connection st addr w) = trace (tcp_request st addr w) @ [Closed]"
  using assms
  by (cases "tcp_request st addr w") (simp add: tcp_connection_unfold result_def trace_def)

lemma not_closed_after_exception:
  assumes "result (tcp_request st addr w) = Inl e"
  shows "(\<exists>e'. result (tcp_connection st addr w) = Inl e') \<and>
         Closed \<notin> set (trace (tcp_connection st addr w))"
proof -
  obtain st' ev where req: "tcp_request st addr w = (Inl e, st', ev)"
    using assms by (cases "tcp_request st addr w") (simp add: result_def)
  have "Closed \<notin> set ev"
    using request_not_closed [of st addr w] req by (simp add: trace_def)
  with req show ?thesis
    by (simp add: tcp_connection_unfold result_def trace_def)
qed

text \<open>
  Claim C6, which the code does not meet. \<^verbatim>\<open>conn.close()\<close> is a statement after the
  \<^verbatim>\<open>try\<close>, not in a \<^verbatim>\<open>finally\<close> as the release of the lock is. A register request
  whose payload is a list makes \<^verbatim>\<open>int(payload)\<close> raise \<^verbatim>\<open>TypeError\<close> during dispatch, and
  data that is not JSON makes the handler of \<^verbatim>\<open>ValueError\<close> raise \<^verbatim>\<open>TypeError\<close> at
  \<^verbatim>\<open>conn.send\<close>: either exception leaves \<^verbatim>\<open>run\<close> with the connection open.
\<close>

theorem connection_left_open:
  "tcp_connection duo_store addr_a listed_register_request =
     (Inl TypeError, duo_store, [Acquire, Release]) \<and>
   tcp_connection duo_store addr_a NotJson =
     (Inl TypeError, duo_store, [Printed (NotJsonLine addr_a)])"
  by (simp add: listener_defs listed_register_request_def)

section \<open>The data plane\<close>

lemma deliveries_from:
  "(a, x) \<in> set (deliveries st ps m) \<Longrightarrow>
   \<exists>p c. p \<in> set ps \<and> map_of (players st) p = Some c \<and> c_udp_addr c = a"
proof -
  assume "(a, x) \<in> set (deliveries st ps m)"
  then obtain p where p: "p \<in> set ps"
    and ax: "(a, x) \<in> set (case map_of (players st) p of
                              None \<Rightarrow> [] | Some c \<Rightarrow> [(c_udp_addr c, m)])"
    by (auto simp: deliveries_def)
  then obtain c where "map_of (players st) p = Some c" "c_udp_addr c = a"
    by (cases "map_of (players st) p") auto
  with p show ?thesis by blast
qed

lemma send_to_others:
  assumes "send st sender rid m = Inr ds" and "(a, x) \<in> set ds"
  shows "\<exists>p c. JStr p \<noteq> sender \<and> map_of (players st) p = Some c \<and> c_udp_addr c = a"
proof -
  from assms(1) obtain s ps where s: "dict_key (players st) sender = Inr (Some s)"
    and ds: "ds = deliveries st (filter (\<lambda>p. p \<noteq> s) ps) m"
    by (auto simp: send_def split: sum.splits option.splits if_splits)
  from s have "sender = JStr s" by (rule dict_key_Some)
  with ds assms(2) show ?thesis by (auto dest!: deliveries_from)
qed

lemma sendto_to_others:
  assumes "sendto st sender rid rs m = Inr ds" and "(a, x) \<in> set ds"
  shows "\<exists>p c. JStr p \<noteq> sender \<and> map_of (players st) p = Some c \<and> c_udp_addr c = a"
proof -
  from assms(1) obtain s ps js where s: "dict_key (players st) sender = Inr (Some s)"
    and ds: "ds = deliveries st (filter (\<lambda>p. p \<noteq> s \<and> JStr p \<in> set js) ps) m"
    by (auto simp: sendto_def split: json.splits sum.splits option.splits if_splits)
  from s have "sender = JStr s" by (rule dict_key_Some)
  with ds assms(2) show ?thesis by (auto dest!: deliveries_from)
qed

lemma delivered_map:
  "Delivered a x \<in> (\<lambda>d. Delivered (fst d) (snd d)) ` set ds \<longleftrightarrow> (a, x) \<in> set ds"
  by (induction ds) (simp_all add: prod_eq_iff)

lemma relay_to_others:
  assumes "Delivered a x \<in> set (udp_relay st action sender rid payload)"
  shows "\<exists>p c. JStr p \<noteq> sender \<and> map_of (players st) p = Some c \<and> c_udp_addr c = a"
proof (cases "action = JStr ''send''")
  case True
  with assms obtain m where
    m: "Delivered a x \<in> set (case send st sender rid m of
          Inl e \<Rightarrow> [] | Inr ds \<Rightarrow> map (\<lambda>d. Delivered (fst d) (snd d)) ds)"
    by (cases "subscript payload ''message''") (simp_all add: udp_relay_def udp_relay_by_def)
  then obtain ds where "send st sender rid m = Inr ds" "(a, x) \<in> set ds"
    by (cases "send st sender rid m") (simp_all add: delivered_map)
  then show ?thesis by (rule send_to_others)
next
  case False
  have to: "action = JStr ''sendto''"
  proof (rule ccontr)
    assume "action \<noteq> JStr ''sendto''"
    with False have "udp_relay st action sender rid payload = []"
      by (simp add: udp_relay_def udp_relay_by_def)
    with assms show False by simp
  qed
  with assms False obtain rs where
    rs: "Delivered a x \<in> set (case subscript payload ''message'' of
          Inl e \<Rightarrow> []
        | Inr m \<Rightarrow> Call CallSendto #
            (case sendto st sender rid rs m of
               Inl e \<Rightarrow> [] | Inr ds \<Rightarrow> map (\<lambda>d. Delivered (fst d) (snd d)) ds))"
    by (cases "subscript payload ''recipients''")
      (simp_all add: udp_relay_def udp_relay_by_def)
  then obtain m where
    m: "Delivered a x \<in> set (case sendto st sender rid rs m of
          Inl e \<Rightarrow> [] | Inr ds \<Rightarrow> map (\<lambda>d. Delivered (fst d) (snd d)) ds)"
    by (cases "subscript payload ''message''") simp_all
  then obtain ds where "sendto st sender rid rs m = Inr ds" "(a, x) \<in> set ds"
    by (cases "sendto st sender rid rs m") (simp_all add: delivered_map)
  then show ?thesis by (rule sendto_to_others)
qed

lemma idle_not_delivered: "list_all idle_event ev \<Longrightarrow> Delivered a x \<notin> set ev"
  by (induction ev) auto

lemma delivery_to_other_client:
  assumes "Delivered a m \<in> set (trace (udp_datagram st (src, w)))"
  shows "\<exists>p c. JStr p \<noteq> claimed_sender w \<and> map_of (players st) p = Some c \<and> c_udp_addr c = a"
proof -
  have "\<not> list_all idle_event (trace (udp_datagram st (src, w)))"
    using assms idle_not_delivered by blast
  then obtain action payload where
    "trace (udp_datagram st (src, w)) =
       Acquire # udp_relay st action (claimed_sender w) (claimed_room w) payload @ [Release]"
    using trace_udp_datagram [of st "(src, w)"] by auto
  with assms
  have "Delivered a m \<in> set (udp_relay st action (claimed_sender w) (claimed_room w) payload)"
    by simp
  then show ?thesis by (rule relay_to_others)
qed

text \<open>
  Claim C8, amended. \<^verbatim>\<open>UdpServer.run\<close> sends nothing itself and uses the source address
  of a datagram only to print it; what is transmitted while a datagram is processed are
  the deliveries of the Store's relay, each to the stored address of a registered client
  other than the one the envelope names. So nothing is transmitted to the source address
  of a datagram, provided no registered client other than the one named in the envelope
  has that address as its stored address.
\<close>

theorem no_delivery_to_source:
  "(\<forall>a m. Delivered a m \<in> set (trace (udp_datagram st (src, w))) \<longrightarrow>
      (\<exists>p c. JStr p \<noteq> claimed_sender w \<and> map_of (players st) p = Some c \<and>
             c_udp_addr c = a)) \<and>
   (only_sender_at st src (claimed_sender w) \<longrightarrow>
      (\<forall>m. Delivered src m \<notin> set (trace (udp_datagram st (src, w)))))"
proof (intro conjI allI impI)
  fix a m
  assume "Delivered a m \<in> set (trace (udp_datagram st (src, w)))"
  then show "\<exists>p c. JStr p \<noteq> claimed_sender w \<and> map_of (players st) p = Some c \<and>
      c_udp_addr c = a"
    by (rule delivery_to_other_client)
next
  fix m
  assume only: "only_sender_at st src (claimed_sender w)"
  show "Delivered src m \<notin> set (trace (udp_datagram st (src, w)))"
  proof
    assume "Delivered src m \<in> set (trace (udp_datagram st (src, w)))"
    then obtain p c where p: "JStr p \<noteq> claimed_sender w" "map_of (players st) p = Some c"
      "c_udp_addr c = src"
      using delivery_to_other_client by blast
    from p(2) have "(p, c) \<in> set (players st)" by (rule map_of_SomeD)
    with only have "c_udp_addr c \<noteq> src \<or> JStr p = claimed_sender w"
      by (auto simp: only_sender_at_def list_all_iff)
    with p show False by simp
  qed
qed

lemma duo_relay:
  "udp_datagram duo_store (addr_a, send_datagram ''0'' ''0'') =
     (Inr (), duo_store, [Acquire, Call CallSend, Delivered addr_b (JStr ''hi''), Release])"
  by (simp add: duo_store_eq udp_datagram_def udp_datagram_by_def send_datagram_def request_def
      opt_field_def dict_key_def udp_relay_by_def send_def deliveries_def)

theorem no_delivery_to_source_witness:
  "Delivered addr_b (JStr ''hi'') \<in>
     set (trace (udp_datagram duo_store (addr_a, send_datagram ''0'' ''0''))) \<and>
   (\<exists>p c. JStr p \<noteq> claimed_sender (send_datagram ''0'' ''0'') \<and>
          map_of (players duo_store) p = Some c \<and> c_udp_addr c = addr_b) \<and>
   only_sender_at duo_store addr_a (claimed_sender (send_datagram ''0'' ''0'')) \<and>
   Delivered addr_a (JStr ''hi'') \<notin>
     set (trace (udp_datagram duo_store (addr_a, send_datagram ''0'' ''0'')))"
proof -
  have d: "Delivered addr_b (JStr ''hi'') \<in>
      set (trace (udp_datagram duo_store (addr_a, send_datagram ''0'' ''0'')))"
    by (simp add: duo_relay trace_def)
  have h: "only_sender_at duo_store addr_a (claimed_sender (send_datagram ''0'' ''0''))"
    by (simp add: only_sender_at_def duo_store_eq claimed_sender_def send_datagram_def
        request_def opt_field_def addr_a_def addr_b_def)
  show ?thesis
    using d h no_delivery_to_source [of duo_store addr_a "send_datagram ''0'' ''0''"]
    by blast
qed

text \<open>
  Claim C8 as stated fails: two clients registered from the same address are in one room;
  a datagram of the first, from that address, is relayed to the second, at the address the
  datagram came from.
\<close>

theorem relay_reaches_source:
  "Delivered addr_a (JStr ''hi'') \<in>
     set (trace (udp_datagram shared_store (addr_a, send_datagram ''0'' ''0'')))"
  by (simp add: shared_store_eq udp_datagram_def udp_datagram_by_def send_datagram_def
      request_def opt_field_def dict_key_def udp_relay_by_def send_def deliveries_def trace_def)

text \<open>What \<^verbatim>\<open>UdpServer.run\<close> does with a datagram it cannot relay, whatever the Store's
  \<^verbatim>\<open>send\<close> and \<^verbatim>\<open>sendto\<close> are.\<close>

lemma opt_field_object:
  "opt_field (JObj kvs) k = Inr (case map_of kvs k of None \<Rightarrow> JNull | Some v \<Rightarrow> v)"
  by (simp add: opt_field_def split: option.splits)

lemma udp_run_step:
  "udp_datagram_by send_op sendto_op st d = (Inr (), st, ev) \<Longrightarrow>
   udp_run_by send_op sendto_op st (Some d # ds) =
     prepend ev (udp_run_by send_op sendto_op st ds)"
  by (simp add: prepend_def result_def store_of_def trace_def split: prod.splits)

lemma not_json_dropped:
  "udp_datagram_by send_op sendto_op st (a, NotJson) =
     (Inr (), st, [Printed (NotJsonLine a)])"
  by (simp add: udp_datagram_by_def udp_handlers_def)

lemma unknown_room_dropped:
  "dict_key (rooms st) (claimed_room (Json (JObj kvs))) = Inr None \<Longrightarrow>
   udp_datagram_by send_op sendto_op st (a, Json (JObj kvs)) =
     (Inr (), st, [Printed RoomNotFoundLine])"
  by (simp add: udp_datagram_by_def claimed_room_def opt_field_object)

lemma relay_refused:
  assumes "refuses send_op sendto_op st sender rid"
  shows "silent (udp_relay_by send_op sendto_op st action sender rid payload)"
proof (cases "action = JStr ''send''")
  case True
  show ?thesis
  proof (cases "subscript payload ''message''")
    case (Inl e)
    with True show ?thesis by (simp add: udp_relay_by_def silent_def)
  next
    case (Inr m)
    obtain e where "send_op st sender rid m = Inl e"
      using assms unfolding refuses_def by blast
    with True Inr show ?thesis by (simp add: udp_relay_by_def silent_def)
  qed
next
  case False
  show ?thesis
  proof (cases "action = JStr ''sendto''")
    case no: False
    with False show ?thesis by (simp add: udp_relay_by_def silent_def)
  next
    case True
    show ?thesis
    proof (cases "subscript payload ''recipients''")
      case (Inl e)
      with True show ?thesis by (simp add: udp_relay_by_def silent_def)
    next
      case rs: (Inr rs)
      show ?thesis
      proof (cases "subscript payload ''message''")
        case (Inl e)
        with True rs show ?thesis by (simp add: udp_relay_by_def silent_def)
      next
        case (Inr m)
        obtain e where "sendto_op st sender rid rs m = Inl e"
          using assms unfolding refuses_def by blast
        with True rs Inr show ?thesis by (simp add: udp_relay_by_def silent_def)
      qed
    qed
  qed
qed

lemma refused_dropped:
  assumes "dict_key (rooms st) (claimed_room (Json (JObj kvs))) = Inr (Some rid)"
    and "refuses send_op sendto_op st (claimed_sender (Json (JObj kvs)))
           (claimed_room (Json (JObj kvs)))"
  shows "\<exists>ev. silent ev \<and>
           udp_datagram_by send_op sendto_op st (a, Json (JObj kvs)) = (Inr (), st, ev)"
proof -
  obtain action payload where
    "udp_datagram_by send_op sendto_op st (a, Json (JObj kvs)) =
       (Inr (), st,
        Acquire # udp_relay_by send_op sendto_op st action (claimed_sender (Json (JObj kvs)))
          (claimed_room (Json (JObj kvs))) payload @ [Release])"
    using assms(1)
    by (simp add: udp_datagram_by_def claimed_room_def claimed_sender_def opt_field_object)
  moreover have "silent (Acquire # udp_relay_by send_op sendto_op st action
          (claimed_sender (Json (JObj kvs))) (claimed_room (Json (JObj kvs))) payload
          @ [Release])"
    using relay_refused [OF assms(2)] by (simp add: silent_def)
  ultimately show ?thesis by blast
qed

text \<open>An envelope of a known room with no action is dropped as silently: the lock is
  taken and released, and nothing else is done.\<close>

lemma actionless_dropped:
  assumes "dict_key (rooms st) (claimed_room (Json (JObj kvs))) = Inr (Some rid)"
    and "map_of kvs ''action'' = None"
  shows "udp_datagram_by send_op sendto_op st (a, Json (JObj kvs)) =
           (Inr (), st, [Acquire, Release])"
  using assms
  by (simp add: udp_datagram_by_def udp_relay_by_def claimed_room_def opt_field_object)

text \<open>The Store written from the description refuses a sender that is not registered.\<close>

lemma send_unknown_sender:
  "dict_key (players st) sender = Inr None \<Longrightarrow> send st sender rid m = Inl UnknownIdentity"
  by (simp add: send_def)

lemma sendto_unknown_sender:
  "dict_key (players st) sender = Inr None \<Longrightarrow> \<exists>e. sendto st sender rid rs m = Inl e"
  by (cases rs) (simp_all add: sendto_def)

lemma unknown_sender_refused:
  assumes "dict_key (players st) sender = Inr None"
  shows "refuses send sendto st sender rid"
  using send_unknown_sender [OF assms] sendto_unknown_sender [OF assms]
  by (simp add: refuses_def)

text \<open>
  Claim C9, amended. Whatever the Store's \<^verbatim>\<open>send\<close> and \<^verbatim>\<open>sendto\<close> are:
  a datagram for which \<^verbatim>\<open>json.loads\<close> raises \<^verbatim>\<open>ValueError\<close> is dropped with the line
  \<^verbatim>\<open>Message from ... is not valid json string\<close>; a JSON object whose \<^verbatim>\<open>room_id\<close> is absent
  or is \<^verbatim>\<open>null\<close>, a boolean, a number or a string, and is no key of the rooms, is dropped
  with the line \<^verbatim>\<open>Room not found\<close>; a JSON object whose \<^verbatim>\<open>room_id\<close> is a key of the rooms
  and for whose sender the Store refuses to relay (\<^verbatim>\<open>send\<close> and \<^verbatim>\<open>sendto\<close> raise) is
  dropped with nothing printed, the handler of the relay being
  \<^verbatim>\<open>except BaseException: pass\<close>. In the three cases nothing is delivered, the Store is
  as it was (in the first two no Store operation is called), and the loop goes on with the
  next datagrams. Other datagrams are not covered.
\<close>

theorem bad_datagram_dropped:
  "udp_run_by send_op sendto_op st (Some (a, NotJson) # ds) =
     prepend [Printed (NotJsonLine a)] (udp_run_by send_op sendto_op st ds) \<and>
   (dict_key (rooms st) (claimed_room (Json (JObj kvs))) = Inr None \<longrightarrow>
      udp_run_by send_op sendto_op st (Some (a, Json (JObj kvs)) # ds) =
        prepend [Printed RoomNotFoundLine] (udp_run_by send_op sendto_op st ds)) \<and>
   (dict_key (rooms st) (claimed_room (Json (JObj kvs))) = Inr (Some rid) \<and>
    refuses send_op sendto_op st (claimed_sender (Json (JObj kvs)))
      (claimed_room (Json (JObj kvs))) \<longrightarrow>
      (\<exists>ev. silent ev \<and>
         udp_run_by send_op sendto_op st (Some (a, Json (JObj kvs)) # ds) =
           prepend ev (udp_run_by send_op sendto_op st ds)))"
proof (intro conjI impI)
  show "udp_run_by send_op sendto_op st (Some (a, NotJson) # ds) =
      prepend [Printed (NotJsonLine a)] (udp_run_by send_op sendto_op st ds)"
    by (rule udp_run_step) (rule not_json_dropped)
next
  assume "dict_key (rooms st) (claimed_room (Json (JObj kvs))) = Inr None"
  then show "udp_run_by send_op sendto_op st (Some (a, Json (JObj kvs)) # ds) =
      prepend [Printed RoomNotFoundLine] (udp_run_by send_op sendto_op st ds)"
    by (intro udp_run_step unknown_room_dropped)
next
  assume "dict_key (rooms st) (claimed_room (Json (JObj kvs))) = Inr (Some rid) \<and>
    refuses send_op sendto_op st (claimed_sender (Json (JObj kvs)))
      (claimed_room (Json (JObj kvs)))"
  then obtain ev where "silent ev"
    "udp_datagram_by send_op sendto_op st (a, Json (JObj kvs)) = (Inr (), st, ev)"
    using refused_dropped by blast
  then show "\<exists>ev. silent ev \<and>
      udp_run_by send_op sendto_op st (Some (a, Json (JObj kvs)) # ds) =
        prepend ev (udp_run_by send_op sendto_op st ds)"
    using udp_run_step by blast
qed

lemma lost_datagram:
  "send_datagram ''0'' ''7'' =
     Json (JObj [(''action'', JStr ''send''), (''identifier'', JStr ''0''),
                 (''room_id'', JStr ''7''), (''payload'', JObj [(''message'', JStr ''hi'')])])"
  by (simp add: send_datagram_def request_def)

lemma stranger_datagram:
  "send_datagram ''9'' ''0'' =
     Json (JObj [(''action'', JStr ''send''), (''identifier'', JStr ''9''),
                 (''room_id'', JStr ''0''), (''payload'', JObj [(''message'', JStr ''hi'')])])"
  by (simp add: send_datagram_def request_def)

lemma duo_run:
  "udp_run_by send sendto duo_store [Some (addr_a, send_datagram ''0'' ''0'')] =
     (Inr (), duo_store, [Acquire, Call CallSend, Delivered addr_b (JStr ''hi''), Release])"
  using duo_relay by (simp add: udp_datagram_def)

lemma prepend_pair [simp]: "prepend ev (r, st, ev') = (r, st, ev @ ev')"
  by (simp add: prepend_def result_def store_of_def trace_def)

theorem bad_datagram_dropped_witness:
  "udp_run duo_store [Some (addr_a, NotJson), Some (addr_a, send_datagram ''0'' ''0'')] =
     (Inr (), duo_store,
      [Printed (NotJsonLine addr_a),
       Acquire, Call CallSend, Delivered addr_b (JStr ''hi''), Release]) \<and>
   dict_key (rooms duo_store) (claimed_room (send_datagram ''0'' ''7'')) = Inr None \<and>
   udp_run duo_store
       [Some (addr_a, send_datagram ''0'' ''7''), Some (addr_a, send_datagram ''0'' ''0'')] =
     (Inr (), duo_store,
      [Printed RoomNotFoundLine,
       Acquire, Call CallSend, Delivered addr_b (JStr ''hi''), Release]) \<and>
   dict_key (rooms duo_store) (claimed_room (send_datagram ''9'' ''0'')) = Inr (Some ''0'') \<and>
   refuses send sendto duo_store (claimed_sender (send_datagram ''9'' ''0''))
     (claimed_room (send_datagram ''9'' ''0'')) \<and>
   (\<exists>ev. silent ev \<and>
      udp_run duo_store
          [Some (addr_a, send_datagram ''9'' ''0''), Some (addr_a, send_datagram ''0'' ''0'')] =
        (Inr (), duo_store,
         ev @ [Acquire, Call CallSend, Delivered addr_b (JStr ''hi''), Release]))"
proof -
  let ?next = "[Some (addr_a, send_datagram ''0'' ''0'')]"
  let ?lost = "[(''action'', JStr ''send''), (''identifier'', JStr ''0''),
      (''room_id'', JStr ''7''), (''payload'', JObj [(''message'', JStr ''hi'')])]"
  let ?stranger = "[(''action'', JStr ''send''), (''identifier'', JStr ''9''),
      (''room_id'', JStr ''0''), (''payload'', JObj [(''message'', JStr ''hi'')])]"
  have r: "dict_key (rooms duo_store) (claimed_room (send_datagram ''0'' ''7'')) = Inr None"
    by (simp add: duo_store_eq lost_datagram claimed_room_def opt_field_object dict_key_def)
  have k: "dict_key (rooms duo_store) (claimed_room (send_datagram ''9'' ''0'')) =
      Inr (Some ''0'')"
    by (simp add: duo_store_eq stranger_datagram claimed_room_def opt_field_object
        dict_key_def)
  have "dict_key (players duo_store) (claimed_sender (send_datagram ''9'' ''0'')) = Inr None"
    by (simp add: duo_store_eq stranger_datagram claimed_sender_def opt_field_object
        dict_key_def)
  then have u: "refuses send sendto duo_store (claimed_sender (send_datagram ''9'' ''0''))
      (claimed_room (send_datagram ''9'' ''0''))"
    by (rule unknown_sender_refused)
  note lost = bad_datagram_dropped
    [of send sendto duo_store addr_a ?next ?lost "''0''", folded lost_datagram]
  note stranger = bad_datagram_dropped
    [of send sendto duo_store addr_a ?next ?stranger "''0''", folded stranger_datagram]
  have c1: "udp_run_by send sendto duo_store (Some (addr_a, NotJson) # ?next) =
      (Inr (), duo_store,
       [Printed (NotJsonLine addr_a),
        Acquire, Call CallSend, Delivered addr_b (JStr ''hi''), Release])"
    using lost [THEN conjunct1] by (simp only: duo_run prepend_pair append.simps)
  have c2: "udp_run_by send sendto duo_store (Some (addr_a, send_datagram ''0'' ''7'') # ?next) =
      (Inr (), duo_store,
       [Printed RoomNotFoundLine,
        Acquire, Call CallSend, Delivered addr_b (JStr ''hi''), Release])"
    using lost [THEN conjunct2, THEN conjunct1, rule_format, OF r]
    by (simp only: duo_run prepend_pair append.simps)
  have c3: "\<exists>ev. silent ev \<and>
      udp_run_by send sendto duo_store (Some (addr_a, send_datagram ''9'' ''0'') # ?next) =
        (Inr (), duo_store,
         ev @ [Acquire, Call CallSend, Delivered addr_b (JStr ''hi''), Release])"
    using stranger [THEN conjunct2, THEN conjunct2, rule_format, OF conjI, OF k u]
    by (simp only: duo_run prepend_pair)
  show ?thesis
    unfolding udp_run_def using c1 r c2 k u c3 by (intro conjI)
qed

text \<open>
  Claim C9 as stated fails: for a known room and an unknown sender the Store's relay is
  called under the lock and raises, the exception is swallowed, and no line is printed.
\<close>

theorem unknown_sender_not_logged:
  "udp_datagram duo_store (addr_a, send_datagram ''9'' ''0'') =
     (Inr (), duo_store, [Acquire, Call CallSend, Release])"
  by (simp add: duo_store_eq udp_datagram_def udp_datagram_by_def send_datagram_def request_def
      opt_field_def dict_key_def udp_relay_by_def send_def)

text \<open>
  The datagrams that end the loop, whatever the Store's \<^verbatim>\<open>send\<close> and \<^verbatim>\<open>sendto\<close> are.
  Valid JSON that is not an object: subscripting it raises \<^verbatim>\<open>TypeError\<close>. An object whose
  \<^verbatim>\<open>room_id\<close> is a list or an object: the test \<^verbatim>\<open>room_id not in self.rooms.rooms.keys()\<close>
  raises \<^verbatim>\<open>TypeError\<close>. Brackets nested too deeply: \<^verbatim>\<open>json.loads\<close> raises
  \<^verbatim>\<open>RecursionError\<close>. No handler of \<^verbatim>\<open>UdpServer.run\<close> catches either exception.
\<close>

lemma list_envelope_ends_loop:
  "udp_run_by send_op sendto_op st (Some (a, Json (JArr xs)) # ds) = (Inl TypeError, st, [])"
  by (simp add: udp_datagram_by_def udp_handlers_def opt_field_def)

lemma unhashable_room_ends_loop:
  assumes "map_of kvs ''room_id'' = Some (JArr xs)"
  shows "udp_run_by send_op sendto_op st (Some (a, Json (JObj kvs)) # ds) =
           (Inl TypeError, st, [])"
  using assms
  by (simp add: udp_datagram_by_def udp_handlers_def opt_field_object dict_key_def)

lemma deep_nesting_ends_loop:
  "udp_run_by send_op sendto_op st (Some (a, TooDeep) # ds) = (Inl RecursionError, st, [])"
  by (simp add: udp_datagram_by_def udp_handlers_def)

section \<open>The capacity of a room\<close>

lemma list_all_update:
  "list_all P kvs \<Longrightarrow> P (k, v) \<Longrightarrow> list_all P (AList.update k v kvs)"
  by (induction kvs) auto

lemma map_of_list_all: "list_all P kvs \<Longrightarrow> map_of kvs k = Some v \<Longrightarrow> P (k, v)"
  by (auto simp: list_all_iff dest: map_of_SomeD)

lemma length_add_member: "length (add_member cid ps) \<le> Suc (length ps)"
  by (simp add: add_member_def)

lemma uniform_register: "uniform c st \<Longrightarrow> uniform c (snd (register st a h))"
  by (simp add: uniform_def register_def Let_def)

lemma uniform_create: "uniform c st \<Longrightarrow> uniform c (snd (create st nm))"
  by (simp add: uniform_def create_def Let_def list_all_update)

lemma uniform_join: "uniform c st \<Longrightarrow> uniform c (snd (join st cid rid))"
  by (auto simp: uniform_def join_def split: option.splits
      intro!: list_all_update dest: map_of_list_all)

lemma uniform_leave: "uniform c st \<Longrightarrow> uniform c (snd (leave st cid rid))"
  by (auto simp: uniform_def leave_def split: option.splits
      intro!: list_all_update dest: map_of_list_all)

lemma uniform_remove_empty: "uniform c st \<Longrightarrow> uniform c (remove_empty st)"
  by (simp add: uniform_def remove_empty_def list_all_iff)

lemma uniform_join_auto: "uniform c st \<Longrightarrow> uniform c (snd (join_auto st cid))"
  using join_auto_cases [of st cid]
  by (auto simp: uniform_join uniform_create)

lemma reachable_uniform: "reachable c st \<Longrightarrow> uniform c st"
proof (induction rule: reachable.induct)
  case constructed
  show ?case by (simp add: uniform_def Rooms_def)
qed (simp_all add: uniform_register uniform_create uniform_join uniform_join_auto
      uniform_leave uniform_remove_empty)

lemma within_register: "within_capacity st \<Longrightarrow> within_capacity (snd (register st a h))"
  by (simp add: within_capacity_def register_def Let_def)

lemma within_create:
  "within_capacity st \<Longrightarrow> 0 \<le> room_capacity st \<Longrightarrow> within_capacity (snd (create st nm))"
  by (simp add: within_capacity_def create_def Let_def list_all_update)

lemma within_join: 
  assumes "within_capacity st"
  shows "within_capacity (snd (join st cid rid))"
proof (cases "map_of (rooms st) rid")
  case None
  with assms show ?thesis by (simp add: join_def)
next
  case (Some r)
  have le: "int (length (r_players r)) \<le> r_capacity r"
    using map_of_list_all [OF assms [unfolded within_capacity_def] Some] by simp
  show ?thesis
  proof (cases "int (length (r_players r)) = r_capacity r")
    case True
    with Some assms show ?thesis by (simp add: join_def)
  next
    case False
    with le have "int (length (r_players r)) < r_capacity r" by simp
    then have "int (length (add_member cid (r_players r))) \<le> r_capacity r"
      using length_add_member [of cid "r_players r"] by linarith
    with Some False assms show ?thesis
      by (simp add: join_def within_capacity_def list_all_update)
  qed
qed

lemma within_leave:
  assumes "within_capacity st"
  shows "within_capacity (snd (leave st cid rid))"
proof (cases "map_of (rooms st) rid")
  case None
  with assms show ?thesis by (simp add: leave_def)
next
  case (Some r)
  have "int (length (r_players r)) \<le> r_capacity r"
    using map_of_list_all [OF assms [unfolded within_capacity_def] Some] by simp
  moreover have "length (removeAll cid (r_players r)) \<le> length (r_players r)"
    by simp
  ultimately have "int (length (removeAll cid (r_players r))) \<le> r_capacity r"
    by linarith
  with Some assms show ?thesis
    by (simp add: leave_def within_capacity_def list_all_update)
qed

lemma within_remove_empty: "within_capacity st \<Longrightarrow> within_capacity (remove_empty st)"
  by (simp add: within_capacity_def remove_empty_def list_all_iff)

lemma room_capacity_create: "room_capacity (snd (create st nm)) = room_capacity st"
  by (simp add: create_def Let_def)

lemma within_join_auto:
  assumes "within_capacity st" and "0 \<le> room_capacity st"
  shows "within_capacity (snd (join_auto st cid))"
proof -
  consider "join_auto st cid = (Inl UnknownIdentity, st)"
    | rid where "join_auto st cid = join st cid rid"
    | rid where "join_auto st cid = join (snd (create st JNull)) cid rid"
    using join_auto_cases [of st cid] by blast
  then show ?thesis
  proof cases
    case 1
    with assms show ?thesis by simp
  next
    case 2
    with assms show ?thesis by (simp add: within_join)
  next
    case 3
    with assms show ?thesis by (simp add: within_join within_create)
  qed
qed

lemma reachable_within:
  assumes "0 \<le> c"
  shows "reachable c st \<Longrightarrow> within_capacity st"
proof (induction rule: reachable.induct)
  case constructed
  show ?case by (simp add: within_capacity_def Rooms_def)
next
  case (registered st address hint)
  then show ?case by (simp add: within_register)
next
  case (created st nm)
  moreover have "room_capacity st = c"
    using reachable_uniform [OF created.hyps] by (simp add: uniform_def)
  ultimately show ?case using assms by (simp add: within_create)
next
  case (joined st cid rid)
  then show ?case by (simp add: within_join)
next
  case (auto_joined st cid)
  moreover have "room_capacity st = c"
    using reachable_uniform [OF auto_joined.hyps] by (simp add: uniform_def)
  ultimately show ?case using assms by (simp add: within_join_auto)
next
  case (left st cid rid)
  then show ?case by (simp add: within_leave)
next
  case (swept st)
  then show ?case by (simp add: within_remove_empty)
qed

lemma join_full:
  "map_of (rooms st) rid = Some r \<Longrightarrow> int (length (r_players r)) = r_capacity r \<Longrightarrow>
   join st cid rid = (Inl RoomFull, st)"
  by (simp add: join_def)

lemma route_join_full:
  "map_of (rooms st) rid = Some r \<Longrightarrow> int (length (r_players r)) = r_capacity r \<Longrightarrow>
   route_join st cid (JStr rid) room_id = (Inr (), st, [Call CallJoin, Sent (Reply False room_id)])"
  by (simp add: route_join_def dict_key_def join_def send_tcp_def)

text \<open>
  Claim C1, amended. For a Store constructed with a capacity that is not negative, in
  every state reached by any sequence of Store operations no room has more members than
  its capacity, which is the capacity given at construction; and a join of a room whose
  number of members equals its capacity fails with \<open>RoomFull\<close> and leaves the Store as it
  was, which the \<^verbatim>\<open>join\<close> branch of \<^verbatim>\<open>route\<close> answers with a failure reply.
\<close>

theorem capacity_never_exceeded:
  assumes "0 \<le> c" and "reachable c st"
  shows "within_capacity st \<and>
         list_all (\<lambda>kr. r_capacity (snd kr) = c) (rooms st) \<and>
         (\<forall>rid r cid room_id.
            map_of (rooms st) rid = Some r \<and> int (length (r_players r)) = r_capacity r \<longrightarrow>
              join st cid rid = (Inl RoomFull, st) \<and>
              route_join st cid (JStr rid) room_id =
                (Inr (), st, [Call CallJoin, Sent (Reply False room_id)]))"
  using reachable_within [OF assms] reachable_uniform [OF assms(2)]
  by (simp add: uniform_def join_full route_join_full)

lemma full_store_eq:
  "full_store =
     \<lparr>rooms = [(''0'', \<lparr>r_identifier = ''0'', r_name = JNull, r_capacity = 1,
                         r_players = [''7'']\<rparr>)],
      players = [], room_capacity = 1, next_client = 0, next_room = 1\<rparr>"
  by (simp add: full_store_def store_defs)

theorem capacity_never_exceeded_witness:
  "(0::int) \<le> 1 \<and> reachable 1 full_store \<and> within_capacity full_store \<and>
   map_of (rooms full_store) ''0'' =
     Some \<lparr>r_identifier = ''0'', r_name = JNull, r_capacity = 1, r_players = [''7'']\<rparr> \<and>
   join full_store ''8'' ''0'' = (Inl RoomFull, full_store)"
proof -
  have c: "(0::int) \<le> 1" by simp
  have r: "reachable 1 full_store"
    unfolding full_store_def
    by (intro reachable.joined reachable.created reachable.constructed)
  have m: "map_of (rooms full_store) ''0'' =
      Some \<lparr>r_identifier = ''0'', r_name = JNull, r_capacity = 1, r_players = [''7'']\<rparr>"
    by (simp add: full_store_eq)
  from capacity_never_exceeded [OF c r] m
  have "within_capacity full_store \<and> join full_store ''8'' ''0'' = (Inl RoomFull, full_store)"
    by simp
  with c r m show ?thesis by simp
qed

text \<open>
  Claim C1 as stated fails: the capacity is \<^verbatim>\<open>int(args.room_capacity)\<close>, any integer; in
  a Store constructed with capacity \<open>-1\<close> a created room has no member and still more
  members than its capacity.
\<close>

theorem negative_capacity_exceeded:
  "reachable (- 1) (snd (create (Rooms (- 1)) JNull)) \<and>
   \<not> within_capacity (snd (create (Rooms (- 1)) JNull))"
proof
  show "reachable (- 1) (snd (create (Rooms (- 1)) JNull))"
    by (intro reachable.created reachable.constructed)
  show "\<not> within_capacity (snd (create (Rooms (- 1)) JNull))"
    by (simp add: within_capacity_def store_defs)
qed

text \<open>The listener changes the Store through its operations only: every Store that the
  loop of \<^verbatim>\<open>TcpServer.run\<close> leaves is reachable (\<^verbatim>\<open>UdpServer.run\<close> leaves it as it is,
  \<open>store_udp_datagram\<close>).\<close>

lemma reachable_route:
  assumes "reachable c st"
  shows "reachable c (store_of (route st addr action payload idf room_id))"
proof -
  have j: "reachable c (store_of (route_join st cid payload room_id))" for cid
  proof (cases "dict_key (rooms st) payload")
    case (Inl e)
    with assms show ?thesis by (simp add: route_join_def store_of_def)
  next
    case (Inr k)
    show ?thesis
    proof (cases k)
      case None
      with Inr assms show ?thesis by (simp add: route_join_def store_of_def)
    next
      case (Some rid)
      have "reachable c (snd (join st cid rid))" using assms by (rule reachable.joined)
      with Inr Some show ?thesis
        by (cases "join st cid rid") (auto simp: route_join_def store_of_def split: sum.splits)
    qed
  qed
  have a: "reachable c (store_of (route_autojoin st cid))" for cid
    using reachable.auto_joined [OF assms, of cid]
    by (cases "join_auto st cid") (auto simp: route_autojoin_def store_of_def split: sum.splits)
  have cr: "reachable c (store_of (route_create st cid payload))" for cid
    using reachable.joined [OF reachable.created [OF assms, of payload], of cid "fst (create st payload)"]
    by (cases "create st payload"; cases "join (snd (create st payload)) cid (fst (create st payload))")
      (auto simp: route_create_def store_of_def split: sum.splits)
  have l: "reachable c (store_of (route_leave st cid room_id))" for cid
    using assms by (simp add: route_leave_def store_of_def split: sum.splits option.splits)
  have cl: "reachable c (store_of (route_client st cid action payload room_id))" for cid
    using j a cr l assms
    by (simp add: route_client_def route_get_rooms_def route_else_def store_of_def)
  show ?thesis
  proof (cases "action = JStr ''register''")
    case True
    show ?thesis
    proof (cases "py_int payload")
      case (Inl e)
      with True assms show ?thesis by (simp add: route_unfold route_register_def store_of_def)
    next
      case (Inr n)
      have "reachable c (snd (register st addr n))" using assms by (rule reachable.registered)
      with True Inr show ?thesis
        by (cases "register st addr n") (simp add: route_unfold route_register_def store_of_def)
    qed
  next
    case False
    with cl assms show ?thesis
      by (simp add: route_unfold store_of_def split: sum.splits option.splits)
  qed
qed

lemma reachable_routeD:
  "reachable c st \<Longrightarrow> route st addr action payload idf room_id = (r, st', ev) \<Longrightarrow>
   reachable c st'"
  using reachable_route [of c st addr action payload idf room_id] by (simp add: store_of_def)

lemma reachable_tcp_request:
  "reachable c st \<Longrightarrow> reachable c (store_of (tcp_request st addr w))"
  by (auto simp: tcp_request_unfold store_of_def dest: reachable_routeD
      split: wire.splits sum.splits prod.splits)

lemma reachable_tcp_connection:
  assumes "reachable c st"
  shows "reachable c (store_of (tcp_connection st addr w))"
proof -
  have "store_of (tcp_connection st addr w) = store_of (tcp_request st addr w)"
    by (simp add: tcp_connection_unfold store_of_def split: sum.splits prod.splits)
  with reachable_tcp_request [OF assms] show ?thesis by simp
qed

lemma reachable_tcp_iteration:
  assumes "reachable c st"
  shows "reachable c (store_of (tcp_iteration st i))"
proof -
  define st1 where "st1 = (if fst i then remove_empty st else st)"
  have st1: "reachable c st1"
    using assms by (simp add: st1_def reachable.swept)
  show ?thesis
  proof (cases "snd i")
    case None
    with st1 show ?thesis by (simp add: tcp_iteration_def store_of_def st1_def)
  next
    case (Some x)
    obtain addr w where x: "x = (addr, w)" by (cases x) auto
    obtain r st2 ev where conn: "tcp_connection st1 addr w = (r, st2, ev)"
      by (cases "tcp_connection st1 addr w") auto
    have "reachable c st2"
      using reachable_tcp_connection [OF st1, of addr w] conn by (simp add: store_of_def)
    with Some x conn show ?thesis
      by (simp add: tcp_iteration_def store_of_def st1_def [symmetric])
  qed
qed

lemma reachable_tcp_run: "reachable c st \<Longrightarrow> reachable c (store_of (tcp_run st is))"
proof (induction "is" arbitrary: st)
  case Nil
  then show ?case by (simp add: store_of_def)
next
  case (Cons i "is")
  obtain r st' ev where it: "tcp_iteration st i = (r, st', ev)"
    by (cases "tcp_iteration st i") auto
  have st': "reachable c st'"
    using reachable_tcp_iteration [OF Cons.prems, of i] it by (simp add: store_of_def)
  show ?case
  proof (cases r)
    case (Inl e)
    with it st' show ?thesis by (simp add: store_of_def)
  next
    case (Inr u)
    obtain r' st'' ev' where run: "tcp_run st' is = (r', st'', ev')"
      by (cases "tcp_run st' is") auto
    with Cons.IH [OF st'] have "reachable c st''" by (simp add: store_of_def)
    with it Inr run show ?thesis by (simp add: store_of_def)
  qed
qed

end
